theory Spec2Isabelle
  imports Main "HOL-Library.AList"
begin

section \<open>Python string operations used by the program\<close>

text \<open>
  Strings are byte lists. \<open>str.lower\<close> is modelled on the ASCII letters, which is
  all the extension tests of the program depend on.
\<close>

definition lower_char :: "char \<Rightarrow> char" where
  "lower_char c =
     (case map_of (zip ''ABCDEFGHIJKLMNOPQRSTUVWXYZ'' ''abcdefghijklmnopqrstuvwxyz'') c of
        None \<Rightarrow> c
      | Some d \<Rightarrow> d)"

definition lower :: "string \<Rightarrow> string" where
  "lower s = map lower_char s"

text \<open>\<open>s.endswith(suf)\<close> and \<open>s.endswith((suf1, suf2, ...))\<close>.\<close>

definition endswith :: "string \<Rightarrow> string \<Rightarrow> bool" where
  "endswith s suf = (take (length suf) (rev s) = rev suf)"

definition endswith_any :: "string \<Rightarrow> string list \<Rightarrow> bool" where
  "endswith_any s sufs = list_ex (endswith s) sufs"

text \<open>\<open>s.split(c)\<close> for a one-character separator; the result is never empty.\<close>

fun split_on :: "char \<Rightarrow> string \<Rightarrow> string list" where
  "split_on c [] = [[]]"
| "split_on c (x # xs) =
     (if x = c then [] # split_on c xs
      else (case split_on c xs of
              [] \<Rightarrow> [[x]]
            | w # ws \<Rightarrow> (x # w) # ws))"

text \<open>\<open>s.lower().split('.')[-1]\<close>\<close>

definition file_extension_of :: "string \<Rightarrow> string" where
  "file_extension_of s = last (split_on CHR ''.'' (lower s))"

text \<open>\<open>str(n)\<close> for a non-negative integer.\<close>

definition digit_char :: "nat \<Rightarrow> char" where
  "digit_char d = ''0123456789'' ! d"

fun str_nat :: "nat \<Rightarrow> string" where
  "str_nat n = (if n < 10 then [digit_char n] else str_nat (n div 10) @ [digit_char (n mod 10)])"

declare str_nat.simps [simp del]

text \<open>\<open>os.path.join(a, b)\<close> on POSIX.\<close>

definition path_join :: "string \<Rightarrow> string \<Rightarrow> string" where
  "path_join a b =
     (if b \<noteq> [] \<and> hd b = CHR ''/'' then b
      else if a = [] \<or> last a = CHR ''/'' then a @ b
      else a @ ''/'' @ b)"

definition UPLOAD_DIR :: string where "UPLOAD_DIR = ''uploads''"
definition OUTPUT_DIR :: string where "OUTPUT_DIR = ''outputs''"
definition TEMP_DIR :: string where "TEMP_DIR = ''temp''"

definition image_extensions :: "string list" where
  "image_extensions = [''.jpg'', ''.jpeg'', ''.png'', ''.tif'', ''.tiff'']"

text \<open>\<open>f.lower().endswith(('.jpg', '.jpeg', '.png', '.tif', '.tiff'))\<close>\<close>

definition is_image :: "string \<Rightarrow> bool" where
  "is_image f = endswith_any (lower f) image_extensions"


section \<open>Data model\<close>

text \<open>
  Exceptions carry their \<open>str()\<close>. \<open>FileNotFoundError\<close> is kept apart because
  \<open>extract_archive\<close> has a handler of its own for it.
\<close>

datatype exn = FileNotFoundError string | Exception string

fun str_exn :: "exn \<Rightarrow> string" where
  "str_exn (FileNotFoundError m) = m"
| "str_exn (Exception m) = m"

text \<open>\<open>repr(s)\<close> of a string without quotes or escapes: the string in single quotes.\<close>

definition quoted :: "string \<Rightarrow> string" where
  "quoted s = [CHR 0x27] @ s @ [CHR 0x27]"

text \<open>\<open>KeyError(k)\<close>; its \<open>str()\<close> is the quoted key.\<close>

definition KeyError :: "string \<Rightarrow> exn" where
  "KeyError k = Exception (quoted k)"

text \<open>
  A task record is the dict built in \<open>upload_images\<close>. The two keys that are added
  later, \<open>webodm_task_id\<close> and \<open>output_file\<close>, are optional fields: \<open>None\<close> is an
  absent key. The value stored under \<open>webodm_task_id\<close> is what the remote service
  returned under \<open>uuid\<close>, which may itself be Python's \<open>None\<close>.
\<close>

record task =
  task_id :: string
  status :: string
  progress :: int
  message :: string
  filename :: string
  created_at :: nat
  webodm_task_id :: "string option option"
  output_file :: "string option"

text \<open>A directory: the names of its regular files and its named subdirectories.\<close>

datatype dirtree = Dir "string list" "(string \<times> dirtree) list"

text \<open>
  The state of the process and of the disk. \<open>tasks\<close> is the module-level dict, in
  insertion order. \<open>disk_files\<close> are the regular files under the upload and output
  directories, \<open>disk_dirs\<close> the directory trees by their root path (the
  extraction directory of a task is a root of its own). \<open>now\<close> is the clock in
  seconds, \<open>uuid_calls\<close> counts the calls of \<open>uuid4\<close>, \<open>background\<close>
  are the jobs handed to \<open>BackgroundTasks.add_task\<close>, and \<open>trace\<close> records the
  task record after every single assignment \<open>tasks[task_id][key] = value\<close>.
\<close>

record state =
  tasks :: "(string \<times> task) list"
  disk_files :: "string set"
  disk_dirs :: "(string \<times> dirtree) list"
  now :: nat
  uuid_calls :: nat
  background :: "(string \<times> string) list"
  trace :: "task list"

datatype http_exception = HTTPException nat string

datatype task_response = TaskResponse string string string

datatype task_status = TaskStatus string string int string "string option"

datatype file_response = FileResponse string string string

record task_listing =
  total :: nat
  listed :: "task list"


section \<open>Request handlers (routes.py)\<close>

text \<open>
  \<open>upload_images\<close>: \<open>uuid4\<close> is the generator of task identifiers, read at the
  number of calls made so far.
\<close>

definition upload_images ::
  "(nat \<Rightarrow> string) \<Rightarrow> string \<Rightarrow> state \<Rightarrow> (http_exception + task_response) \<times> state" where
  "upload_images uuid4 fname s =
     (if \<not> endswith_any (lower fname) [''.zip'', ''.rar''] then
        (Inl (HTTPException 400 ''Only ZIP and RAR files are supported''), s)
      else
        let tid = uuid4 (uuid_calls s);
            file_extension = file_extension_of fname;
            archive_path = path_join UPLOAD_DIR (tid @ ''.'' @ file_extension);
            rec = \<lparr> task_id = tid, status = ''queued'', progress = 0,
                    message = ''Task queued'', filename = fname, created_at = now s,
                    webodm_task_id = None, output_file = None \<rparr>
        in (Inr (TaskResponse tid ''queued'' ''Task created. Check /status/{task_id}''),
            s\<lparr> uuid_calls := Suc (uuid_calls s),
               disk_files := insert archive_path (disk_files s),
               tasks := AList.update tid rec (tasks s),
               background := background s @ [(tid, archive_path)] \<rparr>))"

definition get_task_status :: "string \<Rightarrow> state \<Rightarrow> http_exception + task_status" where
  "get_task_status tid s =
     (case map_of (tasks s) tid of
        None \<Rightarrow> Inl (HTTPException 404 ''Task not found'')
      | Some t \<Rightarrow>
          let download_url = (if status t = ''completed'' then Some (''/download/'' @ tid) else None)
          in Inr (TaskStatus tid (status t) (progress t) (message t) download_url))"

definition download_result :: "string \<Rightarrow> state \<Rightarrow> http_exception + file_response" where
  "download_result tid s =
     (case map_of (tasks s) tid of
        None \<Rightarrow> Inl (HTTPException 404 ''Task not found'')
      | Some t \<Rightarrow>
          if status t \<noteq> ''completed'' then
            Inl (HTTPException 400 (''Status: '' @ status t))
          else
            (case output_file t of
               None \<Rightarrow> Inl (HTTPException 404 ''File not found'')
             | Some p \<Rightarrow>
                 if p = [] \<or> p \<notin> disk_files s then
                   Inl (HTTPException 404 ''File not found'')
                 else
                   Inr (FileResponse p ''application/zip'' (''orthomosaic_'' @ tid @ ''.zip''))))"

definition list_tasks :: "state \<Rightarrow> task_listing" where
  "list_tasks s = \<lparr> total = length (tasks s), listed = map snd (tasks s) \<rparr>"


section \<open>The remote service and the operating system, as seen by one run\<close>

text \<open>
  What the world answers during one run of \<open>process_task\<close>: whether
  \<open>os.makedirs\<close> raises, what unpacking does (and what it has written when it
  fails), the reply to the submission, the
  successive replies to the status query, the reply to the download, and whether
  \<open>os.remove\<close> raises. A reply is what the client function branches on: an
  exception in the transport, or the HTTP status code and what the body decodes to.
  The status codes and progress values of the remote service are integers.
  One run is modelled at a time: no other request changes the dict or the disk
  while it lasts.
\<close>

datatype uuid_body = JsonRaises string | JsonObject "string option"

datatype post_reply = PostRaises string | PostReply nat uuid_body

datatype info_body = Malformed | Info int "int option"

datatype info_reply = GetRaises | GetReply nat info_body

datatype download_reply = DownloadRaises | DownloadReply nat bool

record env =
  makedirs_error :: "exn option"
  zip_extractall :: "exn + dirtree"
  zip_partial :: "dirtree option"
  unrar_run :: "exn + (int \<times> string \<times> dirtree)"
  post_reply :: post_reply
  info_replies :: "info_reply list"
  download_reply :: download_reply
  remove_error :: "exn option"


section \<open>Control flow of the manager\<close>

text \<open>
  How a block of statements ends: it falls through (\<open>Normal\<close>), executes
  \<open>continue\<close>, \<open>break\<close> or \<open>return\<close>, raises, or is still inside the polling
  loop when the replies of the remote service supplied so far are used up
  (\<open>Polling\<close>).
\<close>

datatype signal = Normal | Continue | Break | Return | Raise exn | Polling

definition seq :: "signal \<times> state \<Rightarrow> (state \<Rightarrow> signal \<times> state) \<Rightarrow> signal \<times> state" where
  "seq r k = (case fst r of Normal \<Rightarrow> k (snd r) | _ \<Rightarrow> r)"

text \<open>\<open>tasks[task_id][key] = value\<close>; \<open>tasks[task_id]\<close> raises KeyError for an unknown id.\<close>

definition set_item :: "string \<Rightarrow> (task \<Rightarrow> task) \<Rightarrow> state \<Rightarrow> signal \<times> state" where
  "set_item tid upd s =
     (case map_of (tasks s) tid of
        None \<Rightarrow> (Raise (KeyError tid), s)
      | Some t \<Rightarrow>
          (Normal, s\<lparr> tasks := AList.update tid (upd t) (tasks s),
                      trace := trace s @ [upd t] \<rparr>))"

definition set_status :: "string \<Rightarrow> string \<Rightarrow> state \<Rightarrow> signal \<times> state" where
  "set_status tid v = set_item tid (\<lambda>t. t\<lparr>status := v\<rparr>)"

definition set_message :: "string \<Rightarrow> string \<Rightarrow> state \<Rightarrow> signal \<times> state" where
  "set_message tid v = set_item tid (\<lambda>t. t\<lparr>message := v\<rparr>)"

definition set_progress :: "string \<Rightarrow> int \<Rightarrow> state \<Rightarrow> signal \<times> state" where
  "set_progress tid v = set_item tid (\<lambda>t. t\<lparr>progress := v\<rparr>)"

definition time_sleep :: "nat \<Rightarrow> state \<Rightarrow> state" where
  "time_sleep n s = s\<lparr>now := now s + n\<rparr>"


section \<open>Disk operations\<close>

text \<open>\<open>os.makedirs(d, exist_ok=True)\<close>\<close>

definition os_makedirs :: "env \<Rightarrow> string \<Rightarrow> state \<Rightarrow> signal \<times> state" where
  "os_makedirs e d s =
     (case makedirs_error e of
        Some x \<Rightarrow> (Raise x, s)
      | None \<Rightarrow>
          (Normal, (case map_of (disk_dirs s) d of
                      None \<Rightarrow> s\<lparr>disk_dirs := AList.update d (Dir [] []) (disk_dirs s)\<rparr>
                    | Some _ \<Rightarrow> s)))"

text \<open>
  \<open>os.walk(d)\<close>, top-down: the directory itself, then each subdirectory in turn.
  A directory that does not exist yields nothing.
\<close>

fun os_walk :: "string \<Rightarrow> dirtree \<Rightarrow> (string \<times> string list \<times> string list) list" where
  "os_walk d (Dir fs subs) =
     (d, map fst subs, fs) #
       concat (map (\<lambda>p. os_walk (path_join d (fst p)) (snd p)) subs)"

definition walk_disk :: "state \<Rightarrow> string \<Rightarrow> (string \<times> string list \<times> string list) list" where
  "walk_disk s d = (case map_of (disk_dirs s) d of None \<Rightarrow> [] | Some t \<Rightarrow> os_walk d t)"

text \<open>Every directory on the disk, with the names of its subdirectories and files.\<close>

definition all_dirs :: "state \<Rightarrow> (string \<times> string list \<times> string list) list" where
  "all_dirs s = concat (map (\<lambda>p. os_walk (fst p) (snd p)) (disk_dirs s))"

text \<open>
  \<open>os.listdir(d)\<close>: the names of the files and of the subdirectories of \<open>d\<close>
  (Python gives them in arbitrary order; here the files come first).
\<close>

definition os_listdir :: "state \<Rightarrow> string \<Rightarrow> exn + string list" where
  "os_listdir s d =
     (case find (\<lambda>w. fst w = d) (all_dirs s) of
        None \<Rightarrow> Inl (FileNotFoundError (''[Errno 2] No such file or directory: '' @ quoted d))
      | Some w \<Rightarrow> Inr (snd (snd w) @ fst (snd w)))"

text \<open>\<open>os.path.isdir(os.path.join(d, n))\<close> for a name \<open>n\<close> listed in \<open>d\<close>.\<close>

definition is_subdir :: "state \<Rightarrow> string \<Rightarrow> string \<Rightarrow> bool" where
  "is_subdir s d n =
     (case find (\<lambda>w. fst w = d) (all_dirs s) of
        None \<Rightarrow> False
      | Some w \<Rightarrow> n \<in> set (fst (snd w)))"

text \<open>\<open>shutil.rmtree(d, ignore_errors=True)\<close>: never raises; the tree is removed.\<close>

definition shutil_rmtree :: "string \<Rightarrow> state \<Rightarrow> signal \<times> state" where
  "shutil_rmtree d s = (Normal, s\<lparr>disk_dirs := AList.delete d (disk_dirs s)\<rparr>)"

text \<open>\<open>os.remove(p)\<close>\<close>

definition os_remove :: "env \<Rightarrow> string \<Rightarrow> state \<Rightarrow> signal \<times> state" where
  "os_remove e p s =
     (case remove_error e of
        Some x \<Rightarrow> (Raise x, s)
      | None \<Rightarrow>
          if p \<in> disk_files s then (Normal, s\<lparr>disk_files := disk_files s - {p}\<rparr>)
          else (Raise (FileNotFoundError (''[Errno 2] No such file or directory: '' @ quoted p)), s))"


section \<open>The remote service client (utils)\<close>

text \<open>
  \<open>upload_images_to_webodm\<close>: every listed name with an image extension is opened
  before the request is sent; opening a directory raises, outside the function's
  \<open>try\<close>. The result is the pair \<open>(webodm_task_id, error)\<close>. The MIME type chosen
  for each file has no effect on the result and is left out.
\<close>

definition upload_images_to_webodm ::
  "env \<Rightarrow> state \<Rightarrow> string \<Rightarrow> string \<Rightarrow> exn + (string option \<times> string option)" where
  "upload_images_to_webodm e s image_folder task_name =
     (case os_listdir s image_folder of
        Inl x \<Rightarrow> Inl x
      | Inr names \<Rightarrow>
          let files_list = filter is_image names in
          (case find (is_subdir s image_folder) files_list of
             Some n \<Rightarrow>
               Inl (Exception (''[Errno 21] Is a directory: '' @ quoted (path_join image_folder n)))
           | None \<Rightarrow>
               if files_list = [] then Inr (None, Some ''No images found'')
               else
                 (case post_reply e of
                    PostRaises m \<Rightarrow> Inr (None, Some m)
                  | PostReply code body \<Rightarrow>
                      if code = 200 then
                        (case body of
                           JsonRaises m \<Rightarrow> Inr (None, Some m)
                         | JsonObject u \<Rightarrow> Inr (u, None))
                      else Inr (None, Some (''Error: '' @ str_nat code)))))"

text \<open>
  \<open>check_webodm_task_status\<close>: \<open>None\<close> unless the service answers 200 with a body
  that has \<open>status.code\<close>; a missing \<open>progress\<close> reads as 0.
\<close>

definition check_webodm_task_status :: "string option \<Rightarrow> info_reply \<Rightarrow> (int \<times> int) option" where
  "check_webodm_task_status webodm_id r =
     (case r of
        GetRaises \<Rightarrow> None
      | GetReply code body \<Rightarrow>
          if code = 200 then
            (case body of
               Malformed \<Rightarrow> None
             | Info c p \<Rightarrow> Some (c, (case p of None \<Rightarrow> 0 | Some v \<Rightarrow> v)))
          else None)"

text \<open>
  \<open>download_from_webodm\<close>: on a 200 reply the output file is opened for writing,
  so it exists even when streaming the body fails afterwards.
\<close>

definition download_from_webodm :: "download_reply \<Rightarrow> string \<Rightarrow> state \<Rightarrow> bool \<times> state" where
  "download_from_webodm r output_path s =
     (case r of
        DownloadRaises \<Rightarrow> (False, s)
      | DownloadReply code streamed \<Rightarrow>
          if code = 200 then (streamed, s\<lparr>disk_files := insert output_path (disk_files s)\<rparr>)
          else (False, s))"

text \<open>
  \<open>extract_archive\<close>: returns or raises. The environment says what the directory
  holds after unpacking. \<open>unpack\<close> is the body of the \<open>try\<close>: the tree unpacked, or
  the exception raised there.
\<close>

definition unpack :: "env \<Rightarrow> string \<Rightarrow> exn + dirtree" where
  "unpack e file_extension =
     (if file_extension = ''zip'' then zip_extractall e
      else if file_extension = ''rar'' then
        (case unrar_run e of
           Inl x \<Rightarrow> Inl x
         | Inr res \<Rightarrow>
             if fst res = 0 then Inr (snd (snd res))
             else Inl (Exception (''RAR extraction failed: '' @ fst (snd res))))
      else Inl (Exception (''Unsupported archive format: '' @ file_extension)))"

text \<open>The two handlers of \<open>extract_archive\<close>: what is raised in place of \<open>x\<close>.\<close>

fun reraise :: "exn \<Rightarrow> exn" where
  "reraise (FileNotFoundError m) =
     Exception ''unrar is not installed. Please install: apt-get install unrar or brew install unrar''"
| "reraise (Exception m) = Exception (''Extraction failed: '' @ m)"

text \<open>
  What a failing extraction leaves in the directory. \<open>extractall\<close> writes the
  members one by one, so those written before the exception stay (\<open>zip_partial\<close>,
  \<open>None\<close> when the archive could not even be opened); \<open>unrar\<close> that ends with a
  non-zero code leaves what it had unpacked; in every other case nothing was written.
\<close>

definition left_behind :: "env \<Rightarrow> string \<Rightarrow> dirtree option" where
  "left_behind e file_extension =
     (if file_extension = ''zip'' then zip_partial e
      else if file_extension = ''rar'' then
        (case unrar_run e of Inl x \<Rightarrow> None | Inr res \<Rightarrow> Some (snd (snd res)))
      else None)"

definition extract_archive :: "env \<Rightarrow> string \<Rightarrow> string \<Rightarrow> state \<Rightarrow> signal \<times> state" where
  "extract_archive e archive_path extract_dir s =
     (case unpack e (file_extension_of archive_path) of
        Inr t \<Rightarrow> (Normal, s\<lparr>disk_dirs := AList.update extract_dir t (disk_dirs s)\<rparr>)
      | Inl x \<Rightarrow>
          (Raise (reraise x),
           (case left_behind e (file_extension_of archive_path) of
              None \<Rightarrow> s
            | Some t \<Rightarrow> s\<lparr>disk_dirs := AList.update extract_dir t (disk_dirs s)\<rparr>)))"


section \<open>The lifecycle manager: process_task\<close>

text \<open>Lines 137 to 144: up to and including the extraction.\<close>

definition extract_stage ::
  "string \<Rightarrow> string \<Rightarrow> env \<Rightarrow> string \<Rightarrow> state \<Rightarrow> signal \<times> state" where
  "extract_stage tid archive_path e extract_dir s =
     seq (set_status tid ''extracting'' s) (\<lambda>s.
     seq (set_message tid ''Extracting images...'' s) (\<lambda>s.
     seq (os_makedirs e extract_dir s) (\<lambda>s.
       extract_archive e archive_path extract_dir s)))"

text \<open>
  Lines 146 to 153: the search for the image folder. The inner loop stops at the first image file of
  the directory; the outer loop ends with an unconditional \<open>break\<close>, so the
  directories after the first one that \<open>os.walk\<close> yields are never visited.
\<close>

fun files_loop :: "string \<Rightarrow> string list \<Rightarrow> string \<Rightarrow> string" where
  "files_loop root_dir [] image_folder = image_folder"
| "files_loop root_dir (f # fs) image_folder =
     (if is_image f then root_dir else files_loop root_dir fs image_folder)"

fun walk_loop :: "(string \<times> string list \<times> string list) list \<Rightarrow> string \<Rightarrow> string" where
  "walk_loop [] image_folder = image_folder"
| "walk_loop (w # ws) image_folder = files_loop (fst w) (snd (snd w)) image_folder"

definition find_image_folder :: "state \<Rightarrow> string \<Rightarrow> string" where
  "find_image_folder s extract_dir = walk_loop (walk_disk s extract_dir) extract_dir"

definition count_images :: "state \<Rightarrow> string \<Rightarrow> exn + nat" where
  "count_images s image_folder =
     (case os_listdir s image_folder of
        Inl x \<Rightarrow> Inl x
      | Inr names \<Rightarrow> Inr (length (filter is_image names)))"

text \<open>Lines 155 to 159: the count of images and the \<open>uploading\<close> state.\<close>

definition announce_upload :: "string \<Rightarrow> string \<Rightarrow> state \<Rightarrow> signal \<times> state" where
  "announce_upload tid image_folder s =
     (case count_images s image_folder of
        Inl x \<Rightarrow> (Raise x, s)
      | Inr image_count \<Rightarrow>
          seq (set_status tid ''uploading'' s) (\<lambda>s.
            set_message tid (''Uploading '' @ str_nat image_count @ '' images...'') s))"

text \<open>\<open>if error:\<close> for a value that is \<open>None\<close> or a string.\<close>

definition truthy :: "string option \<Rightarrow> bool" where
  "truthy x = (case x of None \<Rightarrow> False | Some m \<Rightarrow> m \<noteq> [])"

text \<open>Lines 173 to 211: one pass through the body of \<open>while True\<close>.\<close>

definition poll_iteration ::
  "string \<Rightarrow> string option \<Rightarrow> env \<Rightarrow> info_reply \<Rightarrow> state \<Rightarrow> signal \<times> state" where
  "poll_iteration tid webodm_id e r s =
     (case check_webodm_task_status webodm_id r of
        None \<Rightarrow> (Continue, time_sleep 10 s)
      | Some status_data \<Rightarrow>
          seq (set_progress tid (snd status_data) s) (\<lambda>s.
            if fst status_data = 40 then
              seq (set_status tid ''downloading'' s) (\<lambda>s.
              seq (set_message tid ''Downloading results...'' s) (\<lambda>s.
                let output = path_join OUTPUT_DIR (tid @ ''.zip'');
                    d = download_from_webodm (download_reply e) output s
                in if fst d then
                     seq (set_status tid ''completed'' (snd d)) (\<lambda>s.
                     seq (set_message tid ''Complete!'' s) (\<lambda>s.
                     seq (set_item tid (\<lambda>t. t\<lparr>output_file := Some output\<rparr>) s) (\<lambda>s.
                     seq (set_progress tid 100 s) (\<lambda>s. (Break, s)))))
                   else
                     seq (set_status tid ''failed'' (snd d)) (\<lambda>s.
                     seq (set_message tid ''Download failed'' s) (\<lambda>s. (Break, s)))))
            else if fst status_data = 30 then
              seq (set_status tid ''failed'' s) (\<lambda>s.
              seq (set_message tid ''Processing failed'' s) (\<lambda>s. (Break, s)))
            else if fst status_data = 50 then
              seq (set_status tid ''failed'' s) (\<lambda>s.
              seq (set_message tid ''Task canceled'' s) (\<lambda>s. (Break, s)))
            else (Continue, time_sleep 10 s)))"

text \<open>
  The loop \<open>while True\<close>, run against the replies the remote service gives in
  turn. When they are used up the loop is still running: \<open>Polling\<close>.
\<close>

fun poll_loop ::
  "string \<Rightarrow> string option \<Rightarrow> env \<Rightarrow> info_reply list \<Rightarrow> state \<Rightarrow> signal \<times> state" where
  "poll_loop tid webodm_id e [] s = (Polling, s)"
| "poll_loop tid webodm_id e (r # rs) s =
     (let it = poll_iteration tid webodm_id e r s in
      case fst it of
        Continue \<Rightarrow> poll_loop tid webodm_id e rs (snd it)
      | Break \<Rightarrow> (Normal, snd it)
      | _ \<Rightarrow> it)"

text \<open>Lines 213 and 214: the cleanup after the loop.\<close>

definition cleanup :: "env \<Rightarrow> string \<Rightarrow> string \<Rightarrow> state \<Rightarrow> signal \<times> state" where
  "cleanup e extract_dir archive_path s =
     seq (shutil_rmtree extract_dir s) (\<lambda>s. os_remove e archive_path s)"

text \<open>Lines 161 to 214: from the submission to the end of the \<open>try\<close> body.\<close>

definition submit_and_poll ::
  "string \<Rightarrow> string \<Rightarrow> env \<Rightarrow> string \<Rightarrow> string \<Rightarrow> state \<Rightarrow> signal \<times> state" where
  "submit_and_poll tid archive_path e extract_dir image_folder s =
     (case upload_images_to_webodm e s image_folder (''Task-'' @ tid) of
        Inl x \<Rightarrow> (Raise x, s)
      | Inr res \<Rightarrow>
          if truthy (snd res) then
            seq (set_status tid ''failed'' s) (\<lambda>s.
            seq (set_message tid (the (snd res)) s) (\<lambda>s. (Return, s)))
          else
            seq (set_item tid (\<lambda>t. t\<lparr>webodm_task_id := Some (fst res)\<rparr>) s) (\<lambda>s.
            seq (set_status tid ''processing'' s) (\<lambda>s.
            seq (set_message tid ''Processing orthomosaic...'' s) (\<lambda>s.
            seq (poll_loop tid (fst res) e (info_replies e) s) (\<lambda>s.
              cleanup e extract_dir archive_path s)))))"

text \<open>The body of the \<open>try\<close>.\<close>

definition process_task_body :: "string \<Rightarrow> string \<Rightarrow> env \<Rightarrow> state \<Rightarrow> signal \<times> state" where
  "process_task_body tid archive_path e s =
     (let extract_dir = path_join TEMP_DIR tid in
      seq (extract_stage tid archive_path e extract_dir s) (\<lambda>s.
        let image_folder = find_image_folder s extract_dir in
        seq (announce_upload tid image_folder s) (\<lambda>s.
          submit_and_poll tid archive_path e extract_dir image_folder s)))"

text \<open>The handler \<open>except Exception as e\<close>.\<close>

definition on_exception :: "string \<Rightarrow> exn \<Rightarrow> state \<Rightarrow> signal \<times> state" where
  "on_exception tid x s =
     seq (set_status tid ''failed'' s) (\<lambda>s. set_message tid (str_exn x) s)"

text \<open>
  \<open>process_task\<close>: \<open>Normal\<close> when the function has returned, \<open>Raise\<close> when an
  exception leaves it (the handler itself raised), \<open>Polling\<close> when it is still in
  the loop.
\<close>

definition process_task :: "string \<Rightarrow> string \<Rightarrow> env \<Rightarrow> state \<Rightarrow> signal \<times> state" where
  "process_task tid archive_path e s =
     (let r = process_task_body tid archive_path e s in
      case fst r of
        Raise x \<Rightarrow> on_exception tid x (snd r)
      | Return \<Rightarrow> (Normal, snd r)
      | _ \<Rightarrow> r)"


section \<open>Notions used to state the properties\<close>

text \<open>A task id is registered when the dict has it as a key.\<close>

definition registered :: "string \<Rightarrow> (string \<times> task) list \<Rightarrow> bool" where
  "registered tid al = (map_of al tid \<noteq> None)"

definition task_of :: "state \<Rightarrow> string \<Rightarrow> task" where
  "task_of s tid = the (map_of (tasks s) tid)"

text \<open>The state after an assignment to a field of a task.\<close>

definition assign :: "string \<Rightarrow> (task \<Rightarrow> task) \<Rightarrow> state \<Rightarrow> state" where
  "assign tid f s = snd (set_item tid f s)"

text \<open>The snapshots that a run starting in \<open>s\<close> and ending in \<open>s'\<close> has added.\<close>

definition new_trace :: "state \<Rightarrow> state \<Rightarrow> task list" where
  "new_trace s s' = drop (length (trace s)) (trace s')"

text \<open>The progress values of the snapshots taken while the status is \<open>processing\<close>.\<close>

definition processing_progress :: "task list \<Rightarrow> int list" where
  "processing_progress tr = map progress (filter (\<lambda>t. status t = ''processing'') tr)"

definition extract_dir_of :: "string \<Rightarrow> string" where
  "extract_dir_of tid = path_join TEMP_DIR tid"

definition output_path_of :: "string \<Rightarrow> string" where
  "output_path_of tid = path_join OUTPUT_DIR (tid @ ''.zip'')"

text \<open>The three status codes the manager interprets, and the replies that carry one.\<close>

definition terminal_code :: "int \<Rightarrow> bool" where
  "terminal_code c = (c = 40 \<or> c = 30 \<or> c = 50)"

definition terminal_reply :: "info_reply \<Rightarrow> bool" where
  "terminal_reply r =
     (case check_webodm_task_status None r of
        None \<Rightarrow> False
      | Some status_data \<Rightarrow> terminal_code (fst status_data))"

definition absent_reply :: "info_reply \<Rightarrow> bool" where
  "absent_reply r = (check_webodm_task_status None r = None)"

text \<open>
  The progress value that a reply carries, if any, and the progress values that the
  remote service reports up to and including the first reply with a terminal code.
\<close>

definition reported_by :: "info_reply \<Rightarrow> int list" where
  "reported_by r =
     (case check_webodm_task_status None r of
        None \<Rightarrow> []
      | Some status_data \<Rightarrow> [snd status_data])"

fun reported :: "info_reply list \<Rightarrow> int list" where
  "reported [] = []"
| "reported (r # rs) = reported_by r @ (if terminal_reply r then [] else reported rs)"

text \<open>The server after start-up: no task, empty directories.\<close>

definition initial_state :: state where
  "initial_state = \<lparr> tasks = [], disk_files = {}, disk_dirs = [], now = 0, uuid_calls = 0,
                      background = [], trace = [] \<rparr>"

text \<open>The state after the first submission, of a file \<open>photos.zip\<close>, with id \<open>t1\<close>.\<close>

definition queued_state :: state where
  "queued_state = snd (upload_images (\<lambda>n. ''t1'') ''photos.zip'' initial_state)"

text \<open>
  A run in which everything succeeds: two images at the top of the archive, a poll
  that fails in transport, two polls in progress and the poll that reports
  completion.
\<close>

definition good_env :: env where
  "good_env =
     \<lparr> makedirs_error = None,
       zip_extractall = Inr (Dir [''a.jpg'', ''b.JPG'', ''notes.txt''] []),
       zip_partial = None,
       unrar_run = Inl (FileNotFoundError ''unrar''),
       post_reply = PostReply 200 (JsonObject (Some ''r1'')),
       info_replies = [GetRaises, GetReply 200 (Info 20 (Some 50)),
                       GetReply 200 (Info 20 (Some 70)), GetReply 200 (Info 40 (Some 99))],
       download_reply = DownloadReply 200 True,
       remove_error = None \<rparr>"


text \<open>Variations of that run, each changing one answer of the world.\<close>

definition corrupt_env :: env where
  "corrupt_env = good_env\<lparr>zip_extractall := Inl (Exception ''File is not a zip file'')\<rparr>"

definition subdir_env :: env where
  "subdir_env =
     good_env\<lparr>zip_extractall := Inr (Dir [] [(''photos'', Dir [''a.jpg'', ''b.jpg''] [])])\<rparr>"

definition decreasing_env :: env where
  "decreasing_env =
     good_env\<lparr>info_replies := [GetReply 200 (Info 20 (Some 50)), GetReply 200 (Info 20 (Some 30))]\<rparr>"

definition remove_fails_env :: env where
  "remove_fails_env =
     good_env\<lparr>remove_error := Some (Exception ''[Errno 13] Permission denied'')\<rparr>"

definition makedirs_fails_env :: env where
  "makedirs_fails_env =
     good_env\<lparr>makedirs_error := Some (Exception ''[Errno 28] No space left on device'')\<rparr>"


section \<open>Strings\<close>

lemma endswith_iff: "endswith s suf \<longleftrightarrow> (\<exists>p. s = p @ suf)"
proof
  assume "endswith s suf"
  then have "take (length suf) (rev s) = rev suf" by (simp add: endswith_def)
  then have "rev s = rev suf @ drop (length suf) (rev s)"
    by (metis append_take_drop_id)
  then have "s = rev (drop (length suf) (rev s)) @ suf"
    by (metis rev_append rev_rev_ident)
  then show "\<exists>p. s = p @ suf" ..
next
  assume "\<exists>p. s = p @ suf"
  then show "endswith s suf" by (auto simp: endswith_def)
qed

text \<open>The test \<open>s.lower().endswith(suf)\<close> is the case-insensitive suffix test.\<close>

lemma endswith_lower_iff:
  "endswith (lower s) suf \<longleftrightarrow> (\<exists>p x. s = p @ x \<and> lower x = suf)"
proof
  assume "endswith (lower s) suf"
  then obtain p where p: "map lower_char s = p @ suf" by (auto simp: endswith_iff lower_def)
  then obtain a b where "s = a @ b" "map lower_char b = suf"
    by (auto simp: map_eq_append_conv)
  then show "\<exists>p x. s = p @ x \<and> lower x = suf" by (auto simp: lower_def)
next
  assume "\<exists>p x. s = p @ x \<and> lower x = suf"
  then show "endswith (lower s) suf" by (auto simp: endswith_iff lower_def)
qed


section \<open>Submission\<close>

text \<open>
  Claim C8. A submission whose file name does not end in \<open>.zip\<close> or \<open>.rar\<close>,
  letter case ignored, is answered with the error 400 and leaves the whole state as
  it was: no task id is drawn, no file is written, no task record is created and no
  background job is scheduled.
\<close>

theorem upload_rejects_unsupported_extension:
  assumes "\<not> endswith (lower fname) ''.zip''" and "\<not> endswith (lower fname) ''.rar''"
  shows "upload_images uuid4 fname s =
           (Inl (HTTPException 400 ''Only ZIP and RAR files are supported''), s)"
  using assms by (simp add: upload_images_def endswith_any_def)

theorem upload_rejects_unsupported_extension_witness:
  "\<not> endswith (lower ''photos.tar'') ''.zip'' \<and> \<not> endswith (lower ''photos.tar'') ''.rar'' \<and>
   upload_images (\<lambda>n. ''t1'') ''photos.tar'' initial_state =
     (Inl (HTTPException 400 ''Only ZIP and RAR files are supported''), initial_state)"
proof -
  have a: "\<not> endswith (lower ''photos.tar'') ''.zip''"
    by (simp add: endswith_def lower_def lower_char_def)
  have b: "\<not> endswith (lower ''photos.tar'') ''.rar''"
    by (simp add: endswith_def lower_def lower_char_def)
  show ?thesis
    using a b upload_rejects_unsupported_extension [OF a b, of "\<lambda>n. ''t1''" initial_state]
    by simp
qed


section \<open>Assignments to task fields\<close>

lemma set_item_registered:
  "registered tid (tasks s) \<Longrightarrow> set_item tid f s = (Normal, assign tid f s)"
  by (auto simp: registered_def assign_def set_item_def)

lemma set_item_unregistered:
  "\<not> registered tid (tasks s) \<Longrightarrow> set_item tid f s = (Raise (KeyError tid), s)"
  by (auto simp: registered_def set_item_def)

lemma registered_assign [simp]:
  "registered tid (tasks s) \<Longrightarrow> registered tid (tasks (assign tid f s))"
  by (auto simp: registered_def assign_def set_item_def AList.update_conv')

lemma task_of_assign [simp]:
  "registered tid (tasks s) \<Longrightarrow> task_of (assign tid f s) tid = f (task_of s tid)"
  by (auto simp: registered_def assign_def set_item_def AList.update_conv' task_of_def)

lemma trace_assign [simp]:
  "registered tid (tasks s) \<Longrightarrow> trace (assign tid f s) = trace s @ [f (task_of s tid)]"
  by (auto simp: registered_def assign_def set_item_def task_of_def)

lemma frame_assign [simp]:
  "disk_files (assign tid f s) = disk_files s"
  "disk_dirs (assign tid f s) = disk_dirs s"
  "now (assign tid f s) = now s"
  "uuid_calls (assign tid f s) = uuid_calls s"
  "background (assign tid f s) = background s"
  by (auto simp: assign_def set_item_def split: option.splits)

lemma keys_update_registered:
  "map_of al k = Some v \<Longrightarrow> map fst (AList.update k w al) = map fst al"
  by (induction al) (auto split: if_splits)

lemma keys_assign [simp]: "map fst (tasks (assign tid f s)) = map fst (tasks s)"
  by (auto simp: assign_def set_item_def keys_update_registered split: option.splits)

lemma others_assign [simp]:
  "k \<noteq> tid \<Longrightarrow> map_of (tasks (assign tid f s)) k = map_of (tasks s) k"
  by (auto simp: assign_def set_item_def AList.update_conv' split: option.splits)

lemma seq_Normal [simp]: "seq (Normal, s) k = k s"
  by (simp add: seq_def)

lemma seq_stop [simp]:
  "seq (Raise x, s) k = (Raise x, s)"
  "seq (Return, s) k = (Return, s)"
  "seq (Polling, s) k = (Polling, s)"
  "seq (Break, s) k = (Break, s)"
  "seq (Continue, s) k = (Continue, s)"
  by (simp_all add: seq_def)

lemmas set_defs = set_status_def set_message_def set_progress_def

lemma frame_time_sleep [simp]:
  "tasks (time_sleep n s) = tasks s"
  "trace (time_sleep n s) = trace s"
  "disk_files (time_sleep n s) = disk_files s"
  "disk_dirs (time_sleep n s) = disk_dirs s"
  "now (time_sleep n s) = now s + n"
  "task_of (time_sleep n s) tid = task_of s tid"
  by (simp_all add: time_sleep_def task_of_def)

lemma frame_download [simp]:
  "tasks (snd (download_from_webodm r out s)) = tasks s"
  "trace (snd (download_from_webodm r out s)) = trace s"
  "disk_dirs (snd (download_from_webodm r out s)) = disk_dirs s"
  "now (snd (download_from_webodm r out s)) = now s"
  "task_of (snd (download_from_webodm r out s)) tid = task_of s tid"
  by (simp_all add: download_from_webodm_def task_of_def split: download_reply.splits)

lemma files_download:
  "disk_files (snd (download_from_webodm r out s)) =
     (case r of DownloadReply code b \<Rightarrow> if code = 200 then insert out (disk_files s) else disk_files s
      | DownloadRaises \<Rightarrow> disk_files s)"
  by (simp add: download_from_webodm_def split: download_reply.splits)

lemma download_success_iff:
  "fst (download_from_webodm r out s) \<longleftrightarrow> r = DownloadReply 200 True"
  by (auto simp: download_from_webodm_def split: download_reply.splits)

lemma check_status_indep:
  "check_webodm_task_status w r = check_webodm_task_status None r"
  by (simp add: check_webodm_task_status_def)

section \<open>One pass of the polling loop\<close>

lemma poll_iteration_absent:
  "absent_reply r \<Longrightarrow> poll_iteration tid w e r s = (Continue, time_sleep 10 s)"
  by (simp add: poll_iteration_def absent_reply_def check_webodm_task_status_def)

lemma poll_iteration_running:
  assumes "registered tid (tasks s)" "check_webodm_task_status None r = Some (c, p)"
    "\<not> terminal_code c"
  shows "poll_iteration tid w e r s =
     (Continue, time_sleep 10 (assign tid (\<lambda>t. t\<lparr>progress := p\<rparr>) s))"
proof -
  from assms(2) have "check_webodm_task_status w r = Some (c, p)"
    by (simp add: check_webodm_task_status_def)
  with assms(1,3) show ?thesis
    by (simp add: poll_iteration_def set_defs set_item_registered terminal_code_def)
qed

lemma poll_iteration_failed:
  assumes "registered tid (tasks s)" "check_webodm_task_status None r = Some (30, p)"
  shows "poll_iteration tid w e r s =
     (Break, assign tid (\<lambda>t. t\<lparr>message := ''Processing failed''\<rparr>)
               (assign tid (\<lambda>t. t\<lparr>status := ''failed''\<rparr>)
                  (assign tid (\<lambda>t. t\<lparr>progress := p\<rparr>) s)))"
proof -
  from assms(2) have "check_webodm_task_status w r = Some (30, p)"
    by (simp add: check_webodm_task_status_def)
  with assms(1) show ?thesis
    by (simp add: poll_iteration_def set_defs set_item_registered)
qed

lemma poll_iteration_canceled:
  assumes "registered tid (tasks s)" "check_webodm_task_status None r = Some (50, p)"
  shows "poll_iteration tid w e r s =
     (Break, assign tid (\<lambda>t. t\<lparr>message := ''Task canceled''\<rparr>)
               (assign tid (\<lambda>t. t\<lparr>status := ''failed''\<rparr>)
                  (assign tid (\<lambda>t. t\<lparr>progress := p\<rparr>) s)))"
proof -
  from assms(2) have "check_webodm_task_status w r = Some (50, p)"
    by (simp add: check_webodm_task_status_def)
  with assms(1) show ?thesis
    by (simp add: poll_iteration_def set_defs set_item_registered)
qed

text \<open>The state in which the download starts.\<close>

lemma poll_iteration_completed:
  assumes "registered tid (tasks s)" "check_webodm_task_status None r = Some (40, p)"
  shows "poll_iteration tid w e r s =
     (let s3 = assign tid (\<lambda>t. t\<lparr>message := ''Downloading results...''\<rparr>)
                 (assign tid (\<lambda>t. t\<lparr>status := ''downloading''\<rparr>)
                    (assign tid (\<lambda>t. t\<lparr>progress := p\<rparr>) s));
          d = download_from_webodm (download_reply e) (output_path_of tid) s3
      in if fst d then
           (Break, assign tid (\<lambda>t. t\<lparr>progress := 100\<rparr>)
                     (assign tid (\<lambda>t. t\<lparr>output_file := Some (output_path_of tid)\<rparr>)
                        (assign tid (\<lambda>t. t\<lparr>message := ''Complete!''\<rparr>)
                           (assign tid (\<lambda>t. t\<lparr>status := ''completed''\<rparr>) (snd d)))))
         else
           (Break, assign tid (\<lambda>t. t\<lparr>message := ''Download failed''\<rparr>)
                     (assign tid (\<lambda>t. t\<lparr>status := ''failed''\<rparr>) (snd d))))"
proof -
  from assms(2) have "check_webodm_task_status w r = Some (40, p)"
    by (simp add: check_webodm_task_status_def)
  with assms(1) show ?thesis
    by (simp add: poll_iteration_def set_defs set_item_registered Let_def output_path_of_def)
qed


lemma reply_cases [case_names absent running failed canceled completed]:
  obtains "absent_reply r"
  | c p where "check_webodm_task_status None r = Some (c, p)" "\<not> terminal_code c"
  | p where "check_webodm_task_status None r = Some (30, p)"
  | p where "check_webodm_task_status None r = Some (50, p)"
  | p where "check_webodm_task_status None r = Some (40, p)"
proof (cases "check_webodm_task_status None r")
  case None
  then show ?thesis using that(1) by (simp add: absent_reply_def)
next
  case (Some sd)
  obtain c p where sd: "sd = (c, p)" by (cases sd)
  show ?thesis
  proof (cases "terminal_code c")
    case False
    with Some sd show ?thesis using that(2) by simp
  next
    case True
    with Some sd show ?thesis using that(3,4,5) by (auto simp: terminal_code_def)
  qed
qed

lemma terminal_reply_simps:
  "absent_reply r \<Longrightarrow> \<not> terminal_reply r"
  "check_webodm_task_status None r = Some (c, p) \<Longrightarrow> terminal_reply r = terminal_code c"
  by (simp_all add: terminal_reply_def absent_reply_def)

lemma poll_iteration_signal:
  assumes "registered tid (tasks s)"
  shows "fst (poll_iteration tid w e r s) = (if terminal_reply r then Break else Continue)"
proof (cases r rule: reply_cases)
  case absent
  then show ?thesis by (simp add: poll_iteration_absent terminal_reply_simps)
next
  case (running c p)
  with assms show ?thesis by (simp add: poll_iteration_running terminal_reply_simps)
next
  case (failed p)
  with assms show ?thesis
    by (simp add: poll_iteration_failed terminal_reply_simps terminal_code_def)
next
  case (canceled p)
  with assms show ?thesis
    by (simp add: poll_iteration_canceled terminal_reply_simps terminal_code_def)
next
  case (completed p)
  with assms show ?thesis
    by (simp add: poll_iteration_completed terminal_reply_simps terminal_code_def Let_def)
qed

lemma poll_iteration_registered:
  assumes "registered tid (tasks s)"
  shows "registered tid (tasks (snd (poll_iteration tid w e r s)))"
proof (cases r rule: reply_cases)
  case absent
  with assms show ?thesis by (simp add: poll_iteration_absent)
next
  case (running c p)
  with assms show ?thesis by (simp add: poll_iteration_running)
next
  case (failed p)
  with assms show ?thesis by (simp add: poll_iteration_failed)
next
  case (canceled p)
  with assms show ?thesis by (simp add: poll_iteration_canceled)
next
  case (completed p)
  with assms show ?thesis by (simp add: poll_iteration_completed Let_def)
qed

lemma poll_iteration_frame:
  assumes "registered tid (tasks s)"
  shows "disk_dirs (snd (poll_iteration tid w e r s)) = disk_dirs s \<and>
    map fst (tasks (snd (poll_iteration tid w e r s))) = map fst (tasks s) \<and>
    disk_files s \<subseteq> disk_files (snd (poll_iteration tid w e r s)) \<and>
    disk_files (snd (poll_iteration tid w e r s)) \<subseteq> insert (output_path_of tid) (disk_files s)"
proof (cases r rule: reply_cases)
  case absent
  with assms show ?thesis by (auto simp add: poll_iteration_absent)
next
  case (running c p)
  with assms show ?thesis by (auto simp add: poll_iteration_running)
next
  case (failed p)
  with assms show ?thesis by (auto simp add: poll_iteration_failed)
next
  case (canceled p)
  with assms show ?thesis by (auto simp add: poll_iteration_canceled)
next
  case (completed p)
  with assms show ?thesis
    by (auto simp add: poll_iteration_completed Let_def files_download
        split: download_reply.splits if_splits)
qed

text \<open>What a pass that goes on leaves alone, and what a pass that ends the loop leaves behind.\<close>

lemma poll_iteration_continue:
  assumes "registered tid (tasks s)" "\<not> terminal_reply r"
  shows "status (task_of (snd (poll_iteration tid w e r s)) tid) = status (task_of s tid) \<and>
    message (task_of (snd (poll_iteration tid w e r s)) tid) = message (task_of s tid) \<and>
    output_file (task_of (snd (poll_iteration tid w e r s)) tid) = output_file (task_of s tid) \<and>
    webodm_task_id (task_of (snd (poll_iteration tid w e r s)) tid) = webodm_task_id (task_of s tid) \<and>
    disk_files (snd (poll_iteration tid w e r s)) = disk_files s \<and>
    now (snd (poll_iteration tid w e r s)) = now s + 10"
proof (cases r rule: reply_cases)
  case absent
  with assms show ?thesis by (simp add: poll_iteration_absent)
next
  case (running c p)
  with assms show ?thesis by (simp add: poll_iteration_running)
next
  case (failed p)
  with assms show ?thesis by (simp add: terminal_reply_simps terminal_code_def)
next
  case (canceled p)
  with assms show ?thesis by (simp add: terminal_reply_simps terminal_code_def)
next
  case (completed p)
  with assms show ?thesis by (simp add: terminal_reply_simps terminal_code_def)
qed

lemma poll_iteration_break:
  assumes "registered tid (tasks s)" "terminal_reply r"
  shows "webodm_task_id (task_of (snd (poll_iteration tid w e r s)) tid) = webodm_task_id (task_of s tid) \<and>
    (status (task_of (snd (poll_iteration tid w e r s)) tid) = ''completed'' \<and>
     output_file (task_of (snd (poll_iteration tid w e r s)) tid) = Some (output_path_of tid) \<and>
     progress (task_of (snd (poll_iteration tid w e r s)) tid) = 100 \<and>
     message (task_of (snd (poll_iteration tid w e r s)) tid) = ''Complete!'' \<and>
     output_path_of tid \<in> disk_files (snd (poll_iteration tid w e r s)) \<and>
     download_reply e = DownloadReply 200 True
     \<or>
     status (task_of (snd (poll_iteration tid w e r s)) tid) = ''failed'' \<and>
     output_file (task_of (snd (poll_iteration tid w e r s)) tid) = output_file (task_of s tid) \<and>
     message (task_of (snd (poll_iteration tid w e r s)) tid) \<in>
       {''Processing failed'', ''Task canceled'', ''Download failed''})"
proof (cases r rule: reply_cases)
  case absent
  with assms show ?thesis by (simp add: terminal_reply_simps)
next
  case (running c p)
  with assms show ?thesis by (simp add: terminal_reply_simps)
next
  case (failed p)
  with assms show ?thesis by (simp add: poll_iteration_failed)
next
  case (canceled p)
  with assms show ?thesis by (simp add: poll_iteration_canceled)
next
  case (completed p)
  with assms show ?thesis
    by (simp add: poll_iteration_completed Let_def files_download download_success_iff)
qed

lemma poll_iteration_trace:
  assumes "registered tid (tasks s)" "status (task_of s tid) = ''processing''"
  shows "\<exists>ext. trace (snd (poll_iteration tid w e r s)) = trace s @ ext \<and>
           processing_progress ext = reported_by r"
proof (cases r rule: reply_cases)
  case absent
  with assms show ?thesis
    by (simp add: poll_iteration_absent absent_reply_def processing_progress_def reported_by_def)
next
  case (running c p)
  with assms show ?thesis
    by (simp add: poll_iteration_running processing_progress_def reported_by_def)
next
  case (failed p)
  with assms show ?thesis
    by (simp add: poll_iteration_failed processing_progress_def reported_by_def)
next
  case (canceled p)
  with assms show ?thesis
    by (simp add: poll_iteration_canceled processing_progress_def reported_by_def)
next
  case (completed p)
  with assms show ?thesis
    by (simp add: poll_iteration_completed processing_progress_def reported_by_def Let_def)
qed


section \<open>The polling loop\<close>

lemma poll_loop_Cons:
  assumes "registered tid (tasks s)"
  shows "poll_loop tid w e (r # rs) s =
     (if terminal_reply r then (Normal, snd (poll_iteration tid w e r s))
      else poll_loop tid w e rs (snd (poll_iteration tid w e r s)))"
  using poll_iteration_signal [OF assms, of w e r] by (simp add: Let_def)

lemma poll_loop_registered:
  "registered tid (tasks s) \<Longrightarrow> registered tid (tasks (snd (poll_loop tid w e rs s)))"
proof (induction rs arbitrary: s)
  case Nil
  then show ?case by simp
next
  case (Cons r rs)
  from Cons.prems have "registered tid (tasks (snd (poll_iteration tid w e r s)))"
    by (rule poll_iteration_registered)
  with Cons show ?case by (simp add: poll_loop_Cons del: poll_loop.simps)
qed

lemma poll_loop_signal:
  "registered tid (tasks s) \<Longrightarrow>
   fst (poll_loop tid w e rs s) = (if list_ex terminal_reply rs then Normal else Polling)"
proof (induction rs arbitrary: s)
  case Nil
  then show ?case by simp
next
  case (Cons r rs)
  from Cons.prems have "registered tid (tasks (snd (poll_iteration tid w e r s)))"
    by (rule poll_iteration_registered)
  with Cons show ?case by (simp add: poll_loop_Cons del: poll_loop.simps)
qed

lemma poll_loop_frame:
  "registered tid (tasks s) \<Longrightarrow>
   disk_dirs (snd (poll_loop tid w e rs s)) = disk_dirs s \<and>
   map fst (tasks (snd (poll_loop tid w e rs s))) = map fst (tasks s) \<and>
   disk_files s \<subseteq> disk_files (snd (poll_loop tid w e rs s)) \<and>
   disk_files (snd (poll_loop tid w e rs s)) \<subseteq> insert (output_path_of tid) (disk_files s)"
proof (induction rs arbitrary: s)
  case Nil
  then show ?case by auto
next
  case (Cons r rs)
  let ?s1 = "snd (poll_iteration tid w e r s)"
  from Cons.prems have reg: "registered tid (tasks ?s1)"
    by (rule poll_iteration_registered)
  note it = poll_iteration_frame [OF Cons.prems, of w e r]
  show ?case
  proof (cases "terminal_reply r")
    case True
    with it Cons.prems show ?thesis by (simp add: poll_loop_Cons del: poll_loop.simps)
  next
    case False
    from Cons.IH [OF reg] it False Cons.prems show ?thesis
      by (simp add: poll_loop_Cons del: poll_loop.simps) blast
  qed
qed

lemma poll_loop_webodm:
  "registered tid (tasks s) \<Longrightarrow>
   webodm_task_id (task_of (snd (poll_loop tid w e rs s)) tid) = webodm_task_id (task_of s tid)"
proof (induction rs arbitrary: s)
  case Nil
  then show ?case by simp
next
  case (Cons r rs)
  let ?s1 = "snd (poll_iteration tid w e r s)"
  from Cons.prems have reg: "registered tid (tasks ?s1)"
    by (rule poll_iteration_registered)
  show ?case
  proof (cases "terminal_reply r")
    case True
    with poll_iteration_break [OF Cons.prems True, of w e] Cons.prems show ?thesis
      by (simp add: poll_loop_Cons del: poll_loop.simps)
  next
    case False
    with Cons.IH [OF reg] poll_iteration_continue [OF Cons.prems False, of w e] Cons.prems
    show ?thesis by (simp add: poll_loop_Cons del: poll_loop.simps)
  qed
qed

lemma poll_loop_polling:
  "registered tid (tasks s) \<Longrightarrow> \<not> list_ex terminal_reply rs \<Longrightarrow>
   status (task_of (snd (poll_loop tid w e rs s)) tid) = status (task_of s tid) \<and>
   message (task_of (snd (poll_loop tid w e rs s)) tid) = message (task_of s tid) \<and>
   output_file (task_of (snd (poll_loop tid w e rs s)) tid) = output_file (task_of s tid) \<and>
   disk_files (snd (poll_loop tid w e rs s)) = disk_files s \<and>
   now (snd (poll_loop tid w e rs s)) = now s + 10 * length rs"
proof (induction rs arbitrary: s)
  case Nil
  then show ?case by simp
next
  case (Cons r rs)
  let ?s1 = "snd (poll_iteration tid w e r s)"
  from Cons.prems have reg: "registered tid (tasks ?s1)"
    by (simp add: poll_iteration_registered)
  from Cons.prems have nt: "\<not> terminal_reply r" "\<not> list_ex terminal_reply rs" by simp_all
  from Cons.IH [OF reg nt(2)] poll_iteration_continue [OF Cons.prems(1) nt(1), of w e] Cons.prems(1) nt
  show ?case by (simp add: poll_loop_Cons del: poll_loop.simps)
qed

lemma poll_loop_finished:
  "registered tid (tasks s) \<Longrightarrow> list_ex terminal_reply rs \<Longrightarrow>
    (status (task_of (snd (poll_loop tid w e rs s)) tid) = ''completed'' \<and>
     output_file (task_of (snd (poll_loop tid w e rs s)) tid) = Some (output_path_of tid) \<and>
     progress (task_of (snd (poll_loop tid w e rs s)) tid) = 100 \<and>
     message (task_of (snd (poll_loop tid w e rs s)) tid) = ''Complete!'' \<and>
     output_path_of tid \<in> disk_files (snd (poll_loop tid w e rs s)) \<and>
     download_reply e = DownloadReply 200 True
     \<or>
     status (task_of (snd (poll_loop tid w e rs s)) tid) = ''failed'' \<and>
     output_file (task_of (snd (poll_loop tid w e rs s)) tid) = output_file (task_of s tid) \<and>
     message (task_of (snd (poll_loop tid w e rs s)) tid) \<in>
       {''Processing failed'', ''Task canceled'', ''Download failed''})"
proof (induction rs arbitrary: s)
  case Nil
  then show ?case by simp
next
  case (Cons r rs)
  let ?s1 = "snd (poll_iteration tid w e r s)"
  from Cons.prems have reg: "registered tid (tasks ?s1)"
    by (simp add: poll_iteration_registered)
  show ?case
  proof (cases "terminal_reply r")
    case True
    from poll_iteration_break [OF Cons.prems(1) True, of w e] True Cons.prems(1)
    show ?thesis by (simp add: poll_loop_Cons del: poll_loop.simps)
  next
    case False
    with Cons.prems have "list_ex terminal_reply rs" by simp
    from Cons.IH [OF reg this] poll_iteration_continue [OF Cons.prems(1) False, of w e]
      False Cons.prems(1)
    show ?thesis by (simp add: poll_loop_Cons del: poll_loop.simps)
  qed
qed

lemma poll_loop_trace:
  "registered tid (tasks s) \<Longrightarrow> status (task_of s tid) = ''processing'' \<Longrightarrow>
   \<exists>ext. trace (snd (poll_loop tid w e rs s)) = trace s @ ext \<and>
         processing_progress ext = reported rs"
proof (induction rs arbitrary: s)
  case Nil
  then show ?case by (simp add: processing_progress_def)
next
  case (Cons r rs)
  let ?s1 = "snd (poll_iteration tid w e r s)"
  from Cons.prems have reg: "registered tid (tasks ?s1)"
    by (simp add: poll_iteration_registered)
  from poll_iteration_trace [OF Cons.prems, of w e r]
  obtain a where a: "trace ?s1 = trace s @ a" "processing_progress a = reported_by r"
    by blast
  show ?case
  proof (cases "terminal_reply r")
    case True
    then have "poll_loop tid w e (r # rs) s = (Normal, ?s1)"
      using Cons.prems(1) by (simp only: poll_loop_Cons if_True)
    with True a show ?thesis by simp
  next
    case False
    from poll_iteration_continue [OF Cons.prems(1) False, of w e] Cons.prems(2)
    have "status (task_of ?s1 tid) = ''processing''" by simp
    from Cons.IH [OF reg this]
    obtain b where b: "trace (snd (poll_loop tid w e rs ?s1)) = trace ?s1 @ b"
      "processing_progress b = reported rs"
      by blast
    from False have eq: "poll_loop tid w e (r # rs) s = poll_loop tid w e rs ?s1"
      using Cons.prems(1) by (simp only: poll_loop_Cons if_False)
    have "trace (snd (poll_loop tid w e (r # rs) s)) = trace s @ (a @ b)"
      using a(1) b(1) by (simp only: eq append_assoc)
    moreover have "processing_progress (a @ b) = reported (r # rs)"
      using a(2) b(2) False by (simp add: processing_progress_def)
    ultimately show ?thesis by blast
  qed
qed


section \<open>The stages before the submission\<close>

lemma frame_makedirs [simp]:
  "tasks (snd (os_makedirs e d s)) = tasks s"
  "trace (snd (os_makedirs e d s)) = trace s"
  "disk_files (snd (os_makedirs e d s)) = disk_files s"
  "task_of (snd (os_makedirs e d s)) tid = task_of s tid"
  by (simp_all add: os_makedirs_def task_of_def split: option.splits)

lemma frame_extract_archive [simp]:
  "tasks (snd (extract_archive e ap d s)) = tasks s"
  "trace (snd (extract_archive e ap d s)) = trace s"
  "disk_files (snd (extract_archive e ap d s)) = disk_files s"
  "task_of (snd (extract_archive e ap d s)) tid = task_of s tid"
  by (simp_all add: extract_archive_def task_of_def split: sum.splits option.splits)

lemma fst_seq: "fst (seq r k) = (if fst r = Normal then fst (k (snd r)) else fst r)"
  by (cases r) (simp add: seq_def split: signal.splits)

lemma snd_seq: "snd (seq r k) = (if fst r = Normal then snd (k (snd r)) else snd r)"
  by (cases r) (simp add: seq_def split: signal.splits)

lemma makedirs_signal:
  "fst (os_makedirs e d s) = (case makedirs_error e of None \<Rightarrow> Normal | Some x \<Rightarrow> Raise x)"
  by (simp add: os_makedirs_def split: option.splits)

lemma extract_archive_signal:
  "fst (extract_archive e ap d s) =
     (case unpack e (file_extension_of ap) of Inr t \<Rightarrow> Normal | Inl x \<Rightarrow> Raise (reraise x))"
  by (simp add: extract_archive_def split: sum.splits)

lemma extract_stage_signal:
  assumes "registered tid (tasks s)"
  shows "fst (extract_stage tid ap e d s) =
     (case makedirs_error e of
        Some x \<Rightarrow> Raise x
      | None \<Rightarrow> (case unpack e (file_extension_of ap) of
                   Inr t \<Rightarrow> Normal
                 | Inl x \<Rightarrow> Raise (reraise x)))"
  using assms
  by (simp add: extract_stage_def set_defs set_item_registered fst_seq makedirs_signal
      extract_archive_signal split: option.splits sum.splits)

lemma extract_stage_task:
  assumes "registered tid (tasks s)"
  shows "registered tid (tasks (snd (extract_stage tid ap e d s)))"
    and "task_of (snd (extract_stage tid ap e d s)) tid =
           (task_of s tid)\<lparr>status := ''extracting'', message := ''Extracting images...''\<rparr>"
    and "trace (snd (extract_stage tid ap e d s)) =
           trace s @ [(task_of s tid)\<lparr>status := ''extracting''\<rparr>,
                      (task_of s tid)\<lparr>status := ''extracting'', message := ''Extracting images...''\<rparr>]"
    and "disk_files (snd (extract_stage tid ap e d s)) = disk_files s"
  using assms
  by (simp_all add: extract_stage_def set_defs set_item_registered snd_seq)

lemma extract_stage_dirs:
  assumes "registered tid (tasks s)" "makedirs_error e = None"
  shows "map_of (disk_dirs (snd (extract_stage tid ap e d s))) d \<noteq> None"
  using assms
  by (auto simp add: extract_stage_def set_defs set_item_registered snd_seq os_makedirs_def
      extract_archive_def AList.update_conv' split: option.splits sum.splits)


lemma announce_upload_signal:
  assumes "registered tid (tasks s)"
  shows "fst (announce_upload tid folder s) =
     (case count_images s folder of Inl x \<Rightarrow> Raise x | Inr n \<Rightarrow> Normal)"
  using assms
  by (simp add: announce_upload_def set_defs set_item_registered split: sum.splits)

lemma announce_upload_task:
  assumes "registered tid (tasks s)"
  shows "registered tid (tasks (snd (announce_upload tid folder s)))"
    and "task_of (snd (announce_upload tid folder s)) tid =
           (case count_images s folder of
              Inl x \<Rightarrow> task_of s tid
            | Inr n \<Rightarrow> (task_of s tid)\<lparr>status := ''uploading'',
                          message := ''Uploading '' @ str_nat n @ '' images...''\<rparr>)"
    and "trace (snd (announce_upload tid folder s)) =
           (case count_images s folder of
              Inl x \<Rightarrow> trace s
            | Inr n \<Rightarrow> trace s @ [(task_of s tid)\<lparr>status := ''uploading''\<rparr>,
                  (task_of s tid)\<lparr>status := ''uploading'',
                          message := ''Uploading '' @ str_nat n @ '' images...''\<rparr>])"
    and "disk_files (snd (announce_upload tid folder s)) = disk_files s"
    and "disk_dirs (snd (announce_upload tid folder s)) = disk_dirs s"
  using assms
  by (simp_all add: announce_upload_def set_defs set_item_registered split: sum.splits)

lemma on_exception_registered:
  assumes "registered tid (tasks s)"
  shows "on_exception tid x s =
     (Normal, assign tid (\<lambda>t. t\<lparr>message := str_exn x\<rparr>)
                (assign tid (\<lambda>t. t\<lparr>status := ''failed''\<rparr>) s))"
  using assms by (simp add: on_exception_def set_defs set_item_registered)


section \<open>Submission, polling and cleanup\<close>

lemma frame_rmtree [simp]:
  "fst (shutil_rmtree d s) = Normal"
  "tasks (snd (shutil_rmtree d s)) = tasks s"
  "trace (snd (shutil_rmtree d s)) = trace s"
  "disk_files (snd (shutil_rmtree d s)) = disk_files s"
  "disk_dirs (snd (shutil_rmtree d s)) = AList.delete d (disk_dirs s)"
  "task_of (snd (shutil_rmtree d s)) tid = task_of s tid"
  by (simp_all add: shutil_rmtree_def task_of_def)

lemma cleanup_eq: "cleanup e d ap s = os_remove e ap (snd (shutil_rmtree d s))"
  by (simp add: cleanup_def shutil_rmtree_def)

lemma frame_remove [simp]:
  "tasks (snd (os_remove e p s)) = tasks s"
  "trace (snd (os_remove e p s)) = trace s"
  "disk_dirs (snd (os_remove e p s)) = disk_dirs s"
  "task_of (snd (os_remove e p s)) tid = task_of s tid"
  by (simp_all add: os_remove_def task_of_def split: option.splits)

lemma remove_signal:
  "fst (os_remove e p s) = Normal \<or> (\<exists>x. fst (os_remove e p s) = Raise x)"
  by (simp add: os_remove_def split: option.splits)

lemma remove_Normal:
  "fst (os_remove e p s) = Normal \<Longrightarrow>
   disk_files (snd (os_remove e p s)) = disk_files s - {p} \<and> remove_error e = None \<and> p \<in> disk_files s"
  by (simp add: os_remove_def split: option.splits if_splits)

lemma remove_Raise:
  "fst (os_remove e p s) = Raise x \<Longrightarrow>
   snd (os_remove e p s) = s \<and> (remove_error e = Some x \<or> remove_error e = None \<and> p \<notin> disk_files s)"
  by (simp add: os_remove_def split: option.splits if_splits)

lemma submit_and_poll_cases [consumes 2, case_names raises refused polling finished]:
  assumes reg: "registered tid (tasks s)" and up: "status (task_of s tid) = ''uploading''"
  obtains
    x where "submit_and_poll tid ap e d folder s = (Raise x, s)"
  | m where "submit_and_poll tid ap e d folder s =
        (Return, assign tid (\<lambda>t. t\<lparr>message := m\<rparr>) (assign tid (\<lambda>t. t\<lparr>status := ''failed''\<rparr>) s))"
  | s1 where "submit_and_poll tid ap e d folder s = (Polling, s1)"
      "registered tid (tasks s1)"
      "status (task_of s1 tid) = ''processing''"
      "output_file (task_of s1 tid) = output_file (task_of s tid)"
      "disk_files s1 = disk_files s" "disk_dirs s1 = disk_dirs s"
      "\<exists>ext. trace s1 = trace s @ ext \<and>
         processing_progress ext =
           [progress (task_of s tid), progress (task_of s tid)] @ reported (info_replies e)"
  | s1 where "submit_and_poll tid ap e d folder s = os_remove e ap s1"
      "registered tid (tasks s1)"
      "disk_dirs s1 = AList.delete d (disk_dirs s)"
      "disk_files s \<subseteq> disk_files s1" "disk_files s1 \<subseteq> insert (output_path_of tid) (disk_files s)"
      "webodm_task_id (task_of s1 tid) \<noteq> None"
      "status (task_of s1 tid) = ''completed'' \<and>
       output_file (task_of s1 tid) = Some (output_path_of tid) \<and>
       progress (task_of s1 tid) = 100 \<and>
       message (task_of s1 tid) = ''Complete!'' \<and>
       output_path_of tid \<in> disk_files s1 \<and>
       download_reply e = DownloadReply 200 True
       \<or>
       status (task_of s1 tid) = ''failed'' \<and>
       output_file (task_of s1 tid) = output_file (task_of s tid) \<and>
       message (task_of s1 tid) \<in> {''Processing failed'', ''Task canceled'', ''Download failed''}"
      "\<exists>ext. trace s1 = trace s @ ext \<and>
         processing_progress ext =
           [progress (task_of s tid), progress (task_of s tid)] @ reported (info_replies e)"
proof (cases "upload_images_to_webodm e s folder (''Task-'' @ tid)")
  case (Inl x)
  then have "submit_and_poll tid ap e d folder s = (Raise x, s)"
    by (simp add: submit_and_poll_def)
  then show ?thesis by (rule that(1))
next
  case (Inr res)
  show ?thesis
  proof (cases "truthy (snd res)")
    case True
    with Inr reg have "submit_and_poll tid ap e d folder s =
        (Return, assign tid (\<lambda>t. t\<lparr>message := the (snd res)\<rparr>)
                   (assign tid (\<lambda>t. t\<lparr>status := ''failed''\<rparr>) s))"
      by (simp add: submit_and_poll_def set_defs set_item_registered)
    then show ?thesis by (rule that(2))
  next
    case False
    define s3 where "s3 = assign tid (\<lambda>t. t\<lparr>message := ''Processing orthomosaic...''\<rparr>)
        (assign tid (\<lambda>t. t\<lparr>status := ''processing''\<rparr>)
           (assign tid (\<lambda>t. t\<lparr>webodm_task_id := Some (fst res)\<rparr>) s))"
    define lp where "lp = poll_loop tid (fst res) e (info_replies e) s3"
    have sp: "submit_and_poll tid ap e d folder s = seq lp (\<lambda>s. cleanup e d ap s)"
      using Inr False reg
      by (simp add: submit_and_poll_def set_defs set_item_registered s3_def lp_def)
    have reg3: "registered tid (tasks s3)" using reg by (simp add: s3_def)
    have st3: "status (task_of s3 tid) = ''processing''" using reg by (simp add: s3_def)
    have out3: "output_file (task_of s3 tid) = output_file (task_of s tid)"
      using reg by (simp add: s3_def)
    have wid3: "webodm_task_id (task_of s3 tid) = Some (fst res)"
      using reg by (simp add: s3_def)
    have disk3: "disk_files s3 = disk_files s" "disk_dirs s3 = disk_dirs s"
      by (simp_all add: s3_def)
    have tr3: "trace s3 = trace s @
        [(task_of s tid)\<lparr>webodm_task_id := Some (fst res)\<rparr>,
         (task_of s tid)\<lparr>webodm_task_id := Some (fst res), status := ''processing''\<rparr>,
         (task_of s tid)\<lparr>webodm_task_id := Some (fst res), status := ''processing'',
            message := ''Processing orthomosaic...''\<rparr>]"
      using reg by (simp add: s3_def)
    have regl: "registered tid (tasks (snd lp))"
      unfolding lp_def using reg3 by (rule poll_loop_registered)
    from poll_loop_trace [OF reg3 st3, of "fst res" e "info_replies e"]
    obtain b where b: "trace (snd lp) = trace s3 @ b" "processing_progress b = reported (info_replies e)"
      unfolding lp_def by blast
    have trl: "\<exists>ext. trace (snd lp) = trace s @ ext \<and>
         processing_progress ext =
           [progress (task_of s tid), progress (task_of s tid)] @ reported (info_replies e)"
    proof (intro exI conjI)
      show "trace (snd lp) = trace s @
        ([(task_of s tid)\<lparr>webodm_task_id := Some (fst res)\<rparr>,
         (task_of s tid)\<lparr>webodm_task_id := Some (fst res), status := ''processing''\<rparr>,
         (task_of s tid)\<lparr>webodm_task_id := Some (fst res), status := ''processing'',
            message := ''Processing orthomosaic...''\<rparr>] @ b)"
        using b(1) tr3 by simp
      show "processing_progress
        ([(task_of s tid)\<lparr>webodm_task_id := Some (fst res)\<rparr>,
         (task_of s tid)\<lparr>webodm_task_id := Some (fst res), status := ''processing''\<rparr>,
         (task_of s tid)\<lparr>webodm_task_id := Some (fst res), status := ''processing'',
            message := ''Processing orthomosaic...''\<rparr>] @ b) =
        [progress (task_of s tid), progress (task_of s tid)] @ reported (info_replies e)"
        using b(2) up by (simp add: processing_progress_def)
    qed
    note fr = poll_loop_frame [OF reg3, of "fst res" e "info_replies e", folded lp_def]
    show ?thesis
    proof (cases "list_ex terminal_reply (info_replies e)")
      case nt: False
      from poll_loop_signal [OF reg3, of "fst res" e "info_replies e"] nt
      have sig: "fst lp = Polling" by (simp add: lp_def)
      then have "seq lp (\<lambda>s. cleanup e d ap s) = (Polling, snd lp)"
        by (cases lp) simp
      with sp have 1: "submit_and_poll tid ap e d folder s = (Polling, snd lp)" by simp
      note pl = poll_loop_polling [OF reg3 nt, of "fst res" e, folded lp_def]
      show ?thesis
      proof (rule that(3) [OF 1 regl])
        show "status (task_of (snd lp) tid) = ''processing''" using pl st3 by simp
        show "output_file (task_of (snd lp) tid) = output_file (task_of s tid)"
          using pl out3 by simp
        show "disk_files (snd lp) = disk_files s" using pl disk3 by simp
        show "disk_dirs (snd lp) = disk_dirs s" using fr disk3 by simp
        show "\<exists>ext. trace (snd lp) = trace s @ ext \<and>
         processing_progress ext =
           [progress (task_of s tid), progress (task_of s tid)] @ reported (info_replies e)"
          by (rule trl)
      qed
    next
      case t: True
      from poll_loop_signal [OF reg3, of "fst res" e "info_replies e"] t
      have sig: "fst lp = Normal" by (simp add: lp_def)
      then have "seq lp (\<lambda>s. cleanup e d ap s) = cleanup e d ap (snd lp)"
        by (cases lp) simp
      with sp have 1: "submit_and_poll tid ap e d folder s =
          os_remove e ap (snd (shutil_rmtree d (snd lp)))"
        by (simp add: cleanup_eq)
      note fin = poll_loop_finished [OF reg3 t, of "fst res" e, folded lp_def]
      note wid = poll_loop_webodm [OF reg3, of "fst res" e "info_replies e", folded lp_def]
      show ?thesis
      proof (rule that(4) [OF 1])
        show "registered tid (tasks (snd (shutil_rmtree d (snd lp))))" using regl by simp
        show "disk_dirs (snd (shutil_rmtree d (snd lp))) = AList.delete d (disk_dirs s)"
          using fr disk3 by simp
        show "disk_files s \<subseteq> disk_files (snd (shutil_rmtree d (snd lp)))"
          using fr disk3 by simp
        show "disk_files (snd (shutil_rmtree d (snd lp))) \<subseteq> insert (output_path_of tid) (disk_files s)"
          using fr disk3 by simp
        show "webodm_task_id (task_of (snd (shutil_rmtree d (snd lp))) tid) \<noteq> None"
          using wid wid3 by simp
        show "status (task_of (snd (shutil_rmtree d (snd lp))) tid) = ''completed'' \<and>
       output_file (task_of (snd (shutil_rmtree d (snd lp))) tid) = Some (output_path_of tid) \<and>
       progress (task_of (snd (shutil_rmtree d (snd lp))) tid) = 100 \<and>
       message (task_of (snd (shutil_rmtree d (snd lp))) tid) = ''Complete!'' \<and>
       output_path_of tid \<in> disk_files (snd (shutil_rmtree d (snd lp))) \<and>
       download_reply e = DownloadReply 200 True
       \<or>
       status (task_of (snd (shutil_rmtree d (snd lp))) tid) = ''failed'' \<and>
       output_file (task_of (snd (shutil_rmtree d (snd lp))) tid) = output_file (task_of s tid) \<and>
       message (task_of (snd (shutil_rmtree d (snd lp))) tid) \<in> {''Processing failed'', ''Task canceled'', ''Download failed''}"
          using fin out3 by simp
        show "\<exists>ext. trace (snd (shutil_rmtree d (snd lp))) = trace s @ ext \<and>
         processing_progress ext =
           [progress (task_of s tid), progress (task_of s tid)] @ reported (info_replies e)"
          using trl by simp
      qed
    qed
  qed
qed


section \<open>The body of process_task, by the way it ends\<close>

lemma processing_progress_append:
  "processing_progress (a @ b) = processing_progress a @ processing_progress b"
  by (simp add: processing_progress_def)

lemma seq_fst_Normal: "fst r = Normal \<Longrightarrow> seq r k = k (snd r)"
  by (cases r) simp

lemma seq_fst_Raise: "fst r = Raise x \<Longrightarrow> seq r k = (Raise x, snd r)"
  by (cases r) simp

lemma process_task_body_cases [consumes 1, case_names raises refused polling finished]:
  assumes reg: "registered tid (tasks s)"
  obtains
    x s1 where "process_task_body tid ap e s = (Raise x, s1)"
      "registered tid (tasks s1)"
      "output_file (task_of s1 tid) = output_file (task_of s tid)"
      "disk_files s1 = disk_files s"
      "\<exists>ext. trace s1 = trace s @ ext \<and> processing_progress ext = []"
  | s1 where "process_task_body tid ap e s = (Return, s1)"
      "registered tid (tasks s1)"
      "status (task_of s1 tid) = ''failed''"
      "output_file (task_of s1 tid) = output_file (task_of s tid)"
      "disk_files s1 = disk_files s"
      "\<exists>ext. trace s1 = trace s @ ext \<and> processing_progress ext = []"
  | s1 where "process_task_body tid ap e s = (Polling, s1)"
      "registered tid (tasks s1)"
      "status (task_of s1 tid) = ''processing''"
      "output_file (task_of s1 tid) = output_file (task_of s tid)"
      "disk_files s1 = disk_files s"
      "\<exists>ext. trace s1 = trace s @ ext \<and>
         processing_progress ext =
           [progress (task_of s tid), progress (task_of s tid)] @ reported (info_replies e)"
  | s1 where "process_task_body tid ap e s = os_remove e ap s1"
      "registered tid (tasks s1)"
      "map_of (disk_dirs s1) (extract_dir_of tid) = None"
      "disk_files s \<subseteq> disk_files s1" "disk_files s1 \<subseteq> insert (output_path_of tid) (disk_files s)"
      "webodm_task_id (task_of s1 tid) \<noteq> None"
      "status (task_of s1 tid) = ''completed'' \<and>
       output_file (task_of s1 tid) = Some (output_path_of tid) \<and>
       progress (task_of s1 tid) = 100 \<and>
       message (task_of s1 tid) = ''Complete!'' \<and>
       output_path_of tid \<in> disk_files s1 \<and>
       download_reply e = DownloadReply 200 True
       \<or>
       status (task_of s1 tid) = ''failed'' \<and>
       output_file (task_of s1 tid) = output_file (task_of s tid) \<and>
       message (task_of s1 tid) \<in> {''Processing failed'', ''Task canceled'', ''Download failed''}"
      "\<exists>ext. trace s1 = trace s @ ext \<and>
         processing_progress ext =
           [progress (task_of s tid), progress (task_of s tid)] @ reported (info_replies e)"
proof -
  define d where "d = path_join TEMP_DIR tid"
  define r1 where "r1 = extract_stage tid ap e d s"
  define folder where "folder = find_image_folder (snd r1) d"
  define r2 where "r2 = announce_upload tid folder (snd r1)"
  note t1 = extract_stage_task [OF reg, of ap e d, folded r1_def]
  note t2 = announce_upload_task [OF t1(1), of folder, folded r2_def]
  have body: "process_task_body tid ap e s =
      seq r1 (\<lambda>s. seq (announce_upload tid (find_image_folder s d) s)
                 (\<lambda>s'. submit_and_poll tid ap e d (find_image_folder s d) s'))"
    by (simp add: process_task_body_def Let_def d_def r1_def)
  have tr1: "\<exists>ext. trace (snd r1) = trace s @ ext \<and> processing_progress ext = []"
    using t1(3) by (simp add: processing_progress_def)
  have sig1: "fst r1 = Normal \<or> (\<exists>x. fst r1 = Raise x)"
    using extract_stage_signal [OF reg, of ap e d]
    by (auto simp: r1_def split: option.splits sum.splits)
  show ?thesis
  proof (cases "fst r1 = Normal")
    case False
    with sig1 obtain x where "fst r1 = Raise x" by blast
    then have 1: "process_task_body tid ap e s = (Raise x, snd r1)"
      unfolding body by (rule seq_fst_Raise)
    have "output_file (task_of (snd r1) tid) = output_file (task_of s tid)"
      using t1(2) by simp
    from 1 t1(1) this t1(4) tr1 show ?thesis by (rule that(1))
  next
    case n1: True
    then have body2: "process_task_body tid ap e s =
        seq r2 (\<lambda>s'. submit_and_poll tid ap e d folder s')"
      unfolding body r2_def folder_def by (rule seq_fst_Normal)
    have sig2: "fst r2 = Normal \<or> (\<exists>x. fst r2 = Raise x)"
      using announce_upload_signal [OF t1(1), of folder]
      by (auto simp: r2_def split: sum.splits)
    have tr2: "\<exists>ext. trace (snd r2) = trace s @ ext \<and> processing_progress ext = []"
      using t2(3) t1(3) by (auto simp: processing_progress_def split: sum.splits)
    have out2: "output_file (task_of (snd r2) tid) = output_file (task_of s tid)"
      using t2(2) t1(2) by (simp split: sum.splits)
    have prog2: "progress (task_of (snd r2) tid) = progress (task_of s tid)"
      using t2(2) t1(2) by (simp split: sum.splits)
    have files2: "disk_files (snd r2) = disk_files s"
      using t2(4) t1(4) by simp
    show ?thesis
    proof (cases "fst r2 = Normal")
      case False
      with sig2 obtain x where "fst r2 = Raise x" by blast
      then have "process_task_body tid ap e s = (Raise x, snd r2)"
        unfolding body2 by (rule seq_fst_Raise)
      from this t2(1) out2 files2 tr2 show ?thesis by (rule that(1))
    next
      case n2: True
      then have body3: "process_task_body tid ap e s =
          submit_and_poll tid ap e d folder (snd r2)"
        unfolding body2 by (rule seq_fst_Normal)
      from n2 announce_upload_signal [OF t1(1), of folder]
      obtain n where "count_images (snd r1) folder = Inr n"
        by (auto simp: r2_def split: sum.splits)
      with t2(2) have up: "status (task_of (snd r2) tid) = ''uploading''" by simp
      from tr2 obtain a where a: "trace (snd r2) = trace s @ a" "processing_progress a = []"
        by blast
      from t2(1) up show ?thesis
      proof (cases rule: submit_and_poll_cases [where ap = ap and e = e and d = d and folder = folder])
        case (raises x)
        then have "process_task_body tid ap e s = (Raise x, snd r2)" by (simp add: body3)
        from this t2(1) out2 files2 tr2 show ?thesis by (rule that(1))
      next
        case (refused m)
        let ?s1 = "assign tid (\<lambda>t. t\<lparr>message := m\<rparr>)
                     (assign tid (\<lambda>t. t\<lparr>status := ''failed''\<rparr>) (snd r2))"
        from refused have 1: "process_task_body tid ap e s = (Return, ?s1)" by (simp add: body3)
        show ?thesis
        proof (rule that(2) [OF 1])
          show "registered tid (tasks ?s1)" using t2(1) by simp
          show "status (task_of ?s1 tid) = ''failed''" using t2(1) by simp
          show "output_file (task_of ?s1 tid) = output_file (task_of s tid)"
            using t2(1) out2 by simp
          show "disk_files ?s1 = disk_files s" using files2 by simp
          show "\<exists>ext. trace ?s1 = trace s @ ext \<and> processing_progress ext = []"
            using t2(1) a by (simp add: processing_progress_def)
        qed
      next
        case (polling s1)
        from polling(7) obtain b where b: "trace s1 = trace (snd r2) @ b"
          "processing_progress b =
             [progress (task_of (snd r2) tid), progress (task_of (snd r2) tid)] @ reported (info_replies e)"
          by blast
        have tr: "\<exists>ext. trace s1 = trace s @ ext \<and>
           processing_progress ext =
             [progress (task_of s tid), progress (task_of s tid)] @ reported (info_replies e)"
        proof (intro exI conjI)
          show "trace s1 = trace s @ (a @ b)" using a(1) b(1) by simp
          show "processing_progress (a @ b) =
             [progress (task_of s tid), progress (task_of s tid)] @ reported (info_replies e)"
            using a(2) b(2) prog2 by (simp add: processing_progress_append)
        qed
        from polling(1) have 1: "process_task_body tid ap e s = (Polling, s1)"
          by (simp add: body3)
        from 1 polling(2,3) polling(4) [unfolded out2] polling(5) [unfolded files2] tr
        show ?thesis by (rule that(3))
      next
        case (finished s1)
        from finished(8) obtain b where b: "trace s1 = trace (snd r2) @ b"
          "processing_progress b =
             [progress (task_of (snd r2) tid), progress (task_of (snd r2) tid)] @ reported (info_replies e)"
          by blast
        have tr: "\<exists>ext. trace s1 = trace s @ ext \<and>
           processing_progress ext =
             [progress (task_of s tid), progress (task_of s tid)] @ reported (info_replies e)"
        proof (intro exI conjI)
          show "trace s1 = trace s @ (a @ b)" using a(1) b(1) by simp
          show "processing_progress (a @ b) =
             [progress (task_of s tid), progress (task_of s tid)] @ reported (info_replies e)"
            using a(2) b(2) prog2 by (simp add: processing_progress_append)
        qed
        from finished(1) have 1: "process_task_body tid ap e s = os_remove e ap s1"
          by (simp add: body3)
        have dirs: "map_of (disk_dirs s1) (extract_dir_of tid) = None"
          using finished(3) by (simp add: AList.delete_conv' extract_dir_of_def d_def)
        from 1 finished(2) dirs finished(4,5) [unfolded files2] finished(6)
            finished(7) [unfolded out2] tr
        show ?thesis by (rule that(4))
      qed
    qed
  qed
qed


section \<open>process_task, by the way it ends\<close>

lemma process_task_Raise:
  assumes "process_task_body tid ap e s = (Raise x, s1)" "registered tid (tasks s1)"
  shows "process_task tid ap e s =
     (Normal, assign tid (\<lambda>t. t\<lparr>message := str_exn x\<rparr>)
                (assign tid (\<lambda>t. t\<lparr>status := ''failed''\<rparr>) s1))"
  using assms by (simp add: process_task_def on_exception_registered)

lemma process_task_Return:
  "process_task_body tid ap e s = (Return, s1) \<Longrightarrow> process_task tid ap e s = (Normal, s1)"
  by (simp add: process_task_def)

lemma process_task_Normal:
  "process_task_body tid ap e s = (Normal, s1) \<Longrightarrow> process_task tid ap e s = (Normal, s1)"
  by (simp add: process_task_def)

lemma process_task_Polling:
  "process_task_body tid ap e s = (Polling, s1) \<Longrightarrow> process_task tid ap e s = (Polling, s1)"
  by (simp add: process_task_def)

lemma new_trace_append: "trace s' = trace s @ ext \<Longrightarrow> new_trace s s' = ext"
  by (simp add: new_trace_def)

text \<open>
  The five ways a run can end: an exception before the polling loop, a submission
  that is refused, a loop that is still polling, a loop that has ended followed by
  a cleanup that succeeds, and a loop that has ended followed by a cleanup that
  raises. \<open>s1\<close> is the state in which the run leaves the \<open>try\<close> body, before the
  archive is removed in the last two cases.
\<close>

lemma process_task_cases [consumes 1, case_names early refused polling cleaned unclean]:
  assumes reg: "registered tid (tasks s)"
  obtains
    x s1 where "process_task_body tid ap e s = (Raise x, s1)"
      "process_task tid ap e s =
         (Normal, assign tid (\<lambda>t. t\<lparr>message := str_exn x\<rparr>)
                    (assign tid (\<lambda>t. t\<lparr>status := ''failed''\<rparr>) s1))"
      "registered tid (tasks s1)"
      "output_file (task_of s1 tid) = output_file (task_of s tid)"
      "disk_files s1 = disk_files s"
      "\<exists>ext. trace s1 = trace s @ ext \<and> processing_progress ext = []"
  | s1 where "process_task_body tid ap e s = (Return, s1)"
      "process_task tid ap e s = (Normal, s1)"
      "registered tid (tasks s1)"
      "status (task_of s1 tid) = ''failed''"
      "output_file (task_of s1 tid) = output_file (task_of s tid)"
      "disk_files s1 = disk_files s"
      "\<exists>ext. trace s1 = trace s @ ext \<and> processing_progress ext = []"
  | s1 where "process_task_body tid ap e s = (Polling, s1)"
      "process_task tid ap e s = (Polling, s1)"
      "registered tid (tasks s1)"
      "status (task_of s1 tid) = ''processing''"
      "output_file (task_of s1 tid) = output_file (task_of s tid)"
      "disk_files s1 = disk_files s"
      "\<exists>ext. trace s1 = trace s @ ext \<and>
         processing_progress ext =
           [progress (task_of s tid), progress (task_of s tid)] @ reported (info_replies e)"
  | s1 where "process_task_body tid ap e s = (Normal, s1\<lparr>disk_files := disk_files s1 - {ap}\<rparr>)"
      "process_task tid ap e s = (Normal, s1\<lparr>disk_files := disk_files s1 - {ap}\<rparr>)"
      "remove_error e = None" "ap \<in> disk_files s1"
      "registered tid (tasks s1)"
      "map_of (disk_dirs s1) (extract_dir_of tid) = None"
      "disk_files s \<subseteq> disk_files s1" "disk_files s1 \<subseteq> insert (output_path_of tid) (disk_files s)"
      "webodm_task_id (task_of s1 tid) \<noteq> None"
      "status (task_of s1 tid) = ''completed'' \<and>
       output_file (task_of s1 tid) = Some (output_path_of tid) \<and>
       progress (task_of s1 tid) = 100 \<and>
       message (task_of s1 tid) = ''Complete!'' \<and>
       output_path_of tid \<in> disk_files s1 \<and>
       download_reply e = DownloadReply 200 True
       \<or>
       status (task_of s1 tid) = ''failed'' \<and>
       output_file (task_of s1 tid) = output_file (task_of s tid) \<and>
       message (task_of s1 tid) \<in> {''Processing failed'', ''Task canceled'', ''Download failed''}"
      "\<exists>ext. trace s1 = trace s @ ext \<and>
         processing_progress ext =
           [progress (task_of s tid), progress (task_of s tid)] @ reported (info_replies e)"
  | x s1 where "process_task_body tid ap e s = (Raise x, s1)"
      "process_task tid ap e s =
         (Normal, assign tid (\<lambda>t. t\<lparr>message := str_exn x\<rparr>)
                    (assign tid (\<lambda>t. t\<lparr>status := ''failed''\<rparr>) s1))"
      "remove_error e = Some x \<or> remove_error e = None \<and> ap \<notin> disk_files s1"
      "registered tid (tasks s1)"
      "map_of (disk_dirs s1) (extract_dir_of tid) = None"
      "disk_files s \<subseteq> disk_files s1" "disk_files s1 \<subseteq> insert (output_path_of tid) (disk_files s)"
      "output_file (task_of s1 tid) = Some (output_path_of tid) \<and>
       download_reply e = DownloadReply 200 True
       \<or> output_file (task_of s1 tid) = output_file (task_of s tid)"
      "\<exists>ext. trace s1 = trace s @ ext \<and>
         processing_progress ext =
           [progress (task_of s tid), progress (task_of s tid)] @ reported (info_replies e)"
  using reg
proof (cases rule: process_task_body_cases [where ap = ap and e = e])
  case (raises x s1)
  from raises(1) process_task_Raise [OF raises(1,2)] raises(2-5) show ?thesis by (rule that(1))
next
  case (refused s1)
  from refused(1) process_task_Return [OF refused(1)] refused(2-6) show ?thesis by (rule that(2))
next
  case (polling s1)
  from polling(1) process_task_Polling [OF polling(1)] polling(2-6) show ?thesis by (rule that(3))
next
  case (finished s1)
  show ?thesis
  proof (cases "fst (os_remove e ap s1) = Normal")
    case True
    from remove_Normal [OF True] have rm: "disk_files (snd (os_remove e ap s1)) = disk_files s1 - {ap}"
      "remove_error e = None" "ap \<in> disk_files s1" by simp_all
    from rm(2,3) have "os_remove e ap s1 = (Normal, s1\<lparr>disk_files := disk_files s1 - {ap}\<rparr>)"
      by (simp add: os_remove_def)
    with finished(1) have 1: "process_task_body tid ap e s =
        (Normal, s1\<lparr>disk_files := disk_files s1 - {ap}\<rparr>)" by simp
    from 1 process_task_Normal [OF 1] rm(2,3) finished(2-8) show ?thesis by (rule that(4))
  next
    case False
    with remove_signal [of e ap s1] obtain x where x: "fst (os_remove e ap s1) = Raise x" by blast
    from remove_Raise [OF x] have rm: "snd (os_remove e ap s1) = s1"
      "remove_error e = Some x \<or> remove_error e = None \<and> ap \<notin> disk_files s1" by simp_all
    from x rm(1) have "os_remove e ap s1 = (Raise x, s1)" by (metis prod.collapse)
    with finished(1) have 1: "process_task_body tid ap e s = (Raise x, s1)" by simp
    from finished(7) have out: "output_file (task_of s1 tid) = Some (output_path_of tid) \<and>
       download_reply e = DownloadReply 200 True
       \<or> output_file (task_of s1 tid) = output_file (task_of s tid)" by blast
    from 1 process_task_Raise [OF 1 finished(2)] rm(2) finished(2-5) out finished(8)
    show ?thesis by (rule that(5))
  qed
qed

text \<open>
  For an id that is not in the dict the first assignment raises KeyError, and so
  does the handler: the exception leaves \<open>process_task\<close>.
\<close>

lemma process_task_unregistered:
  assumes "\<not> registered tid (tasks s)"
  shows "process_task tid ap e s = (Raise (KeyError tid), s)"
proof -
  have "process_task_body tid ap e s = (Raise (KeyError tid), s)"
    using assms
    by (simp add: process_task_body_def extract_stage_def set_status_def
        set_item_unregistered Let_def)
  then show ?thesis
    using assms
    by (simp add: process_task_def on_exception_def set_status_def set_item_unregistered)
qed


section \<open>Properties of every run\<close>

lemma task_of_disk_files_update [simp]:
  "task_of (s\<lparr>disk_files := X\<rparr>) tid = task_of s tid"
  by (simp add: task_of_def)


text \<open>
  Claim C6. For a registered task: whenever the \<open>try\<close> body raises an exception
  \<open>x\<close>, at whatever stage, \<open>process_task\<close> returns normally with the task
  \<open>failed\<close> and its message \<open>str(x)\<close>; no exception leaves \<open>process_task\<close>
  (it returns, or it is still polling); and when it has returned the task is
  \<open>completed\<close> or \<open>failed\<close>.
\<close>

theorem exceptions_end_in_failed:
  assumes "registered tid (tasks s)"
  shows "(\<forall>x s1. process_task_body tid ap e s = (Raise x, s1) \<longrightarrow>
            fst (process_task tid ap e s) = Normal \<and>
            status (task_of (snd (process_task tid ap e s)) tid) = ''failed'' \<and>
            message (task_of (snd (process_task tid ap e s)) tid) = str_exn x) \<and>
         (fst (process_task tid ap e s) = Normal \<or> fst (process_task tid ap e s) = Polling) \<and>
         (fst (process_task tid ap e s) = Normal \<longrightarrow>
            status (task_of (snd (process_task tid ap e s)) tid) = ''completed'' \<or>
            status (task_of (snd (process_task tid ap e s)) tid) = ''failed'')"
  using assms
proof (cases rule: process_task_cases [where ap = ap and e = e])
  case (early x s1)
  then show ?thesis by simp
next
  case (refused s1)
  then show ?thesis by simp
next
  case (polling s1)
  then show ?thesis by simp
next
  case (cleaned s1)
  then show ?thesis by auto
next
  case (unclean x s1)
  then show ?thesis by simp
qed

text \<open>
  Claim C5, as the code has it. For a registered task without \<open>output_file\<close>, at
  the end of a run (or while it polls): a \<open>completed\<close> task has its
  \<open>output_file\<close>, the path of the output; \<open>output_file\<close> is present only if
  the download succeeded; and when \<open>os.remove\<close> is not made to fail and the archive
  is on disk, \<open>output_file\<close> is present exactly when the task is \<open>completed\<close>.
\<close>

theorem output_file_after_download_only:
  assumes "registered tid (tasks s)" and "output_file (task_of s tid) = None"
  shows "(status (task_of (snd (process_task tid ap e s)) tid) = ''completed'' \<longrightarrow>
            output_file (task_of (snd (process_task tid ap e s)) tid) = Some (output_path_of tid)) \<and>
         (output_file (task_of (snd (process_task tid ap e s)) tid) \<noteq> None \<longrightarrow>
            output_file (task_of (snd (process_task tid ap e s)) tid) = Some (output_path_of tid) \<and>
            download_reply e = DownloadReply 200 True) \<and>
         (remove_error e = None \<and> ap \<in> disk_files s \<longrightarrow>
            (output_file (task_of (snd (process_task tid ap e s)) tid) \<noteq> None) =
            (status (task_of (snd (process_task tid ap e s)) tid) = ''completed''))"
  using assms(1)
proof (cases rule: process_task_cases [where ap = ap and e = e])
  case (early x s1)
  with assms(2) show ?thesis by simp
next
  case (refused s1)
  with assms(2) show ?thesis by simp
next
  case (polling s1)
  with assms(2) show ?thesis by simp
next
  case (cleaned s1)
  with assms(2) show ?thesis by auto
next
  case (unclean x s1)
  with assms(2) show ?thesis by auto
qed


lemma sorted_prefix_cases:
  "xs = [] \<or> xs = [p, p] @ ys \<Longrightarrow> sorted (p # ys) \<Longrightarrow> sorted (xs :: int list)"
  by auto

text \<open>
  Claim C3, as the code has it. A task is created with progress 0. The progress
  values seen while the status is \<open>processing\<close> are the value the task had,
  twice, followed by the values the remote service reported, in that order (or
  none, when the run never got there): they are non-decreasing when the reported
  values, put after the value the task had, are. A \<open>completed\<close> task has progress
  100 when the run has ended.
\<close>

theorem progress_follows_remote_reports:
  assumes "registered tid (tasks s)"
  shows "(endswith_any (lower fname) [''.zip'', ''.rar''] \<longrightarrow>
            progress (task_of (snd (upload_images uuid4 fname s0)) (uuid4 (uuid_calls s0))) = 0) \<and>
         (processing_progress (new_trace s (snd (process_task tid ap e s))) = [] \<or>
          processing_progress (new_trace s (snd (process_task tid ap e s))) =
            [progress (task_of s tid), progress (task_of s tid)] @ reported (info_replies e)) \<and>
         (sorted (progress (task_of s tid) # reported (info_replies e)) \<longrightarrow>
            sorted (processing_progress (new_trace s (snd (process_task tid ap e s))))) \<and>
         (status (task_of (snd (process_task tid ap e s)) tid) = ''completed'' \<longrightarrow>
            progress (task_of (snd (process_task tid ap e s)) tid) = 100)"
proof -
  have created: "endswith_any (lower fname) [''.zip'', ''.rar''] \<longrightarrow>
            progress (task_of (snd (upload_images uuid4 fname s0)) (uuid4 (uuid_calls s0))) = 0"
    by (simp add: upload_images_def Let_def task_of_def AList.update_conv')
  have pp: "processing_progress (new_trace s (snd (process_task tid ap e s))) = [] \<or>
          processing_progress (new_trace s (snd (process_task tid ap e s))) =
            [progress (task_of s tid), progress (task_of s tid)] @ reported (info_replies e)"
    using assms
  proof (cases rule: process_task_cases [where ap = ap and e = e])
    case (early x s1)
    from early(6) obtain ext where "trace s1 = trace s @ ext" "processing_progress ext = []"
      by blast
    with early(2,3) show ?thesis
      by (simp add: new_trace_def processing_progress_def)
  next
    case (refused s1)
    from refused(7) obtain ext where "trace s1 = trace s @ ext" "processing_progress ext = []"
      by blast
    with refused(2) show ?thesis by (simp add: new_trace_def)
  next
    case (polling s1)
    from polling(7) obtain ext where "trace s1 = trace s @ ext" "processing_progress ext =
           [progress (task_of s tid), progress (task_of s tid)] @ reported (info_replies e)"
      by blast
    with polling(2) show ?thesis by (simp add: new_trace_def)
  next
    case (cleaned s1)
    from cleaned(11) obtain ext where "trace s1 = trace s @ ext" "processing_progress ext =
           [progress (task_of s tid), progress (task_of s tid)] @ reported (info_replies e)"
      by blast
    with cleaned(2) show ?thesis by (simp add: new_trace_def)
  next
    case (unclean x s1)
    from unclean(9) obtain ext where "trace s1 = trace s @ ext" "processing_progress ext =
           [progress (task_of s tid), progress (task_of s tid)] @ reported (info_replies e)"
      by blast
    with unclean(2,4) show ?thesis
      by (simp add: new_trace_def processing_progress_def)
  qed
  have srt: "sorted (progress (task_of s tid) # reported (info_replies e)) \<longrightarrow>
            sorted (processing_progress (new_trace s (snd (process_task tid ap e s))))"
    using sorted_prefix_cases [OF pp] by blast
  have fin: "status (task_of (snd (process_task tid ap e s)) tid) = ''completed'' \<longrightarrow>
            progress (task_of (snd (process_task tid ap e s)) tid) = 100"
    using assms
  proof (cases rule: process_task_cases [where ap = ap and e = e])
    case (early x s1)
    then show ?thesis by simp
  next
    case (refused s1)
    then show ?thesis by simp
  next
    case (polling s1)
    then show ?thesis by simp
  next
    case (cleaned s1)
    then show ?thesis by auto
  next
    case (unclean x s1)
    then show ?thesis by simp
  qed
  from created pp srt fin show ?thesis by blast
qed

lemma extraction_failure_run:
  assumes "registered tid (tasks s)" "makedirs_error e = None"
    "unpack e (file_extension_of ap) = Inl x"
  shows "process_task tid ap e s =
     (Normal, assign tid (\<lambda>t. t\<lparr>message := str_exn (reraise x)\<rparr>)
                (assign tid (\<lambda>t. t\<lparr>status := ''failed''\<rparr>)
                   (snd (extract_archive e ap (path_join TEMP_DIR tid)
                      (snd (os_makedirs e (path_join TEMP_DIR tid)
                         (assign tid (\<lambda>t. t\<lparr>message := ''Extracting images...''\<rparr>)
                            (assign tid (\<lambda>t. t\<lparr>status := ''extracting''\<rparr>) s))))))))"
proof -
  have mk: "os_makedirs e d s' = (Normal, snd (os_makedirs e d s'))" for d s'
    using assms(2) by (simp add: os_makedirs_def)
  have ex: "extract_archive e ap d s' = (Raise (reraise x), snd (extract_archive e ap d s'))"
    for d s'
    using assms(3) by (simp add: extract_archive_def)
  have "extract_stage tid ap e (path_join TEMP_DIR tid) s =
      (Raise (reraise x), snd (extract_archive e ap (path_join TEMP_DIR tid)
                      (snd (os_makedirs e (path_join TEMP_DIR tid)
                         (assign tid (\<lambda>t. t\<lparr>message := ''Extracting images...''\<rparr>)
                            (assign tid (\<lambda>t. t\<lparr>status := ''extracting''\<rparr>) s))))))"
    using assms(1)
    apply (simp add: extract_stage_def set_defs set_item_registered)
    apply (subst mk)
    apply simp
    apply (subst ex)
    apply simp
    done
  then have "process_task_body tid ap e s =
      (Raise (reraise x), snd (extract_archive e ap (path_join TEMP_DIR tid)
                      (snd (os_makedirs e (path_join TEMP_DIR tid)
                         (assign tid (\<lambda>t. t\<lparr>message := ''Extracting images...''\<rparr>)
                            (assign tid (\<lambda>t. t\<lparr>status := ''extracting''\<rparr>) s))))))"
    by (simp add: process_task_body_def Let_def)
  then show ?thesis
    using assms(1) by (intro process_task_Raise) simp_all
qed

text \<open>
  Claim C7. When the extraction raises, the statuses written by the run are
  \<open>extracting\<close> (twice: status, then message) and \<open>failed\<close> (twice), so
  \<open>uploading\<close> is never written; the task ends \<open>failed\<close> with the message of
  the exception that \<open>extract_archive\<close> raises, which for an error other than a
  missing file is \<open>Extraction failed:\<close> followed by the detail.
\<close>

theorem extraction_failure_never_uploads:
  assumes "registered tid (tasks s)" and "makedirs_error e = None"
    and "unpack e (file_extension_of ap) = Inl x"
  shows "fst (process_task tid ap e s) = Normal \<and>
         map status (new_trace s (snd (process_task tid ap e s))) =
           [''extracting'', ''extracting'', ''failed'', ''failed''] \<and>
         ''uploading'' \<notin> set (map status (new_trace s (snd (process_task tid ap e s)))) \<and>
         status (task_of (snd (process_task tid ap e s)) tid) = ''failed'' \<and>
         message (task_of (snd (process_task tid ap e s)) tid) = str_exn (reraise x) \<and>
         (\<forall>m. x = Exception m \<longrightarrow>
            message (task_of (snd (process_task tid ap e s)) tid) = ''Extraction failed: '' @ m)"
  using assms(1) by (auto simp add: extraction_failure_run [OF assms] new_trace_def)








section \<open>Listing and status\<close>

lemma map_of_registered:
  "registered tid (tasks s) \<Longrightarrow> map_of (tasks s) tid = Some (task_of s tid)"
  by (auto simp: registered_def task_of_def)

lemma map_of_assign:
  "registered tid (tasks s) \<Longrightarrow>
   map_of (tasks (assign tid f s)) tid = Some (f (task_of s tid))"
  using map_of_registered [of tid "assign tid f s"] by simp

lemma process_task_registered:
  assumes "registered tid (tasks s)"
  shows "registered tid (tasks (snd (process_task tid ap e s)))"
  using assms
proof (cases rule: process_task_cases [where ap = ap and e = e])
  case (early x s1)
  then show ?thesis by simp
next
  case (refused s1)
  then show ?thesis by simp
next
  case (polling s1)
  then show ?thesis by simp
next
  case (cleaned s1)
  then show ?thesis by simp
next
  case (unclean x s1)
  then show ?thesis by simp
qed

lemma process_task_completed:
  assumes "registered tid (tasks s)"
    and "status (task_of (snd (process_task tid ap e s)) tid) = ''completed''"
  shows "webodm_task_id (task_of (snd (process_task tid ap e s)) tid) \<noteq> None \<and>
         output_file (task_of (snd (process_task tid ap e s)) tid) = Some (output_path_of tid)"
  using assms(1)
proof (cases rule: process_task_cases [where ap = ap and e = e])
  case (early x s1)
  with assms(2) show ?thesis by simp
next
  case (refused s1)
  with assms(2) show ?thesis by simp
next
  case (polling s1)
  with assms(2) show ?thesis by simp
next
  case (cleaned s1)
  with assms(2) show ?thesis by auto
next
  case (unclean x s1)
  with assms(2) show ?thesis by simp
qed

text \<open>
  Claim C10. With distinct keys, \<open>total\<close> is the number of registered tasks and
  the records listed are exactly the records of the dict. For a registered task,
  its record is listed as it is; the answer of the status endpoint does not depend
  on \<open>webodm_task_id\<close> and \<open>output_file\<close>; after \<open>process_task\<close> its record is
  listed as it is, and when the task is \<open>completed\<close> that record carries the
  identifier given by the remote service and the path of the output file.
\<close>

theorem list_tasks_exposes_internal_fields:
  assumes "distinct (map fst (tasks s))"
  shows "total (list_tasks s) = card (dom (map_of (tasks s))) \<and>
         set (listed (list_tasks s)) = ran (map_of (tasks s)) \<and>
         (registered tid (tasks s) \<longrightarrow>
            task_of s tid \<in> set (listed (list_tasks s)) \<and>
            (\<forall>w p. get_task_status tid
                     (assign tid (\<lambda>t. t\<lparr>webodm_task_id := w, output_file := p\<rparr>) s) =
                   get_task_status tid s) \<and>
            task_of (snd (process_task tid ap e s)) tid
              \<in> set (listed (list_tasks (snd (process_task tid ap e s)))) \<and>
            (status (task_of (snd (process_task tid ap e s)) tid) = ''completed'' \<longrightarrow>
               webodm_task_id (task_of (snd (process_task tid ap e s)) tid) \<noteq> None \<and>
               output_file (task_of (snd (process_task tid ap e s)) tid) =
                 Some (output_path_of tid)))"
proof -
  have "card (dom (map_of (tasks s))) = card (set (map fst (tasks s)))"
    by (simp add: dom_map_of_conv_image_fst)
  also have "\<dots> = length (map fst (tasks s))"
    using assms by (rule distinct_card)
  finally have 1: "total (list_tasks s) = card (dom (map_of (tasks s)))"
    by (simp add: list_tasks_def)
  have 2: "set (listed (list_tasks s)) = ran (map_of (tasks s))"
    using assms by (simp add: list_tasks_def ran_distinct)
  have listed: "task_of s' tid \<in> set (listed (list_tasks s'))"
    if "registered tid (tasks s')" for s'
  proof -
    from that have "map_of (tasks s') tid = Some (task_of s' tid)" by (rule map_of_registered)
    then have "(tid, task_of s' tid) \<in> set (tasks s')" by (rule map_of_SomeD)
    then show ?thesis by (force simp: list_tasks_def)
  qed
  have 3: "registered tid (tasks s) \<longrightarrow>
            task_of s tid \<in> set (listed (list_tasks s)) \<and>
            (\<forall>w p. get_task_status tid
                     (assign tid (\<lambda>t. t\<lparr>webodm_task_id := w, output_file := p\<rparr>) s) =
                   get_task_status tid s) \<and>
            task_of (snd (process_task tid ap e s)) tid
              \<in> set (listed (list_tasks (snd (process_task tid ap e s)))) \<and>
            (status (task_of (snd (process_task tid ap e s)) tid) = ''completed'' \<longrightarrow>
               webodm_task_id (task_of (snd (process_task tid ap e s)) tid) \<noteq> None \<and>
               output_file (task_of (snd (process_task tid ap e s)) tid) =
                 Some (output_path_of tid))"
  proof
    assume reg: "registered tid (tasks s)"
    have a: "task_of s tid \<in> set (listed (list_tasks s))" using reg by (rule listed)
    have b: "\<forall>w p. get_task_status tid
                     (assign tid (\<lambda>t. t\<lparr>webodm_task_id := w, output_file := p\<rparr>) s) =
                   get_task_status tid s"
      using reg by (simp add: get_task_status_def map_of_assign map_of_registered)
    have c: "task_of (snd (process_task tid ap e s)) tid
              \<in> set (listed (list_tasks (snd (process_task tid ap e s))))"
      using process_task_registered [OF reg] by (rule listed)
    have d: "status (task_of (snd (process_task tid ap e s)) tid) = ''completed'' \<longrightarrow>
               webodm_task_id (task_of (snd (process_task tid ap e s)) tid) \<noteq> None \<and>
               output_file (task_of (snd (process_task tid ap e s)) tid) =
                 Some (output_path_of tid)"
      using process_task_completed [OF reg] by blast
    from a b c d show "task_of s tid \<in> set (listed (list_tasks s)) \<and>
            (\<forall>w p. get_task_status tid
                     (assign tid (\<lambda>t. t\<lparr>webodm_task_id := w, output_file := p\<rparr>) s) =
                   get_task_status tid s) \<and>
            task_of (snd (process_task tid ap e s)) tid
              \<in> set (listed (list_tasks (snd (process_task tid ap e s)))) \<and>
            (status (task_of (snd (process_task tid ap e s)) tid) = ''completed'' \<longrightarrow>
               webodm_task_id (task_of (snd (process_task tid ap e s)) tid) \<noteq> None \<and>
               output_file (task_of (snd (process_task tid ap e s)) tid) =
                 Some (output_path_of tid))"
      by blast
  qed
  from 1 2 3 show ?thesis by blast
qed


section \<open>The polling cycle\<close>

lemma time_sleep_add: "time_sleep m (time_sleep n s) = time_sleep (n + m) s"
  by (simp add: time_sleep_def add.assoc)

lemma time_sleep_0: "time_sleep 0 s = s"
  by (simp add: time_sleep_def)

lemma absent_reply_iff: "absent_reply r \<longleftrightarrow> check_webodm_task_status w r = None"
  by (simp add: absent_reply_def check_webodm_task_status_def)

lemma poll_loop_skips_absent:
  "list_all absent_reply rs \<Longrightarrow>
   poll_loop tid w e (rs @ rs') s = poll_loop tid w e rs' (time_sleep (10 * length rs) s)"
proof (induction rs arbitrary: s)
  case Nil
  then show ?case by (simp add: time_sleep_0)
next
  case (Cons r rs)
  then have a: "absent_reply r" and b: "list_all absent_reply rs" by simp_all
  have "poll_loop tid w e ((r # rs) @ rs') s = poll_loop tid w e (rs @ rs') (time_sleep 10 s)"
    by (simp add: poll_iteration_absent [OF a])
  also have "\<dots> = poll_loop tid w e rs' (time_sleep (10 * length rs) (time_sleep 10 s))"
    by (rule Cons.IH [OF b])
  also have "time_sleep (10 * length rs) (time_sleep 10 s) = time_sleep (10 * length (r # rs)) s"
    by (simp add: time_sleep_add)
  finally show ?case .
qed

text \<open>
  Claim C4. For a registered task and a reply \<open>r\<close> of the remote service: when
  the poll result is absent, the pass changes nothing but the clock, which advances
  by 10, and the loop goes on with the next reply; any number of absent results in a
  row are passed over in the same way, and after them the loop is still polling; on
  code 40 the status \<open>downloading\<close> is written, the task ends \<open>completed\<close> or
  \<open>failed\<close> with \<open>Download failed\<close>, and the loop ends; on code 30 and on code 50
  the task is \<open>failed\<close> with the message of that code, and the loop ends; on any
  other code the status stays, the progress is the reported one, the clock advances
  by 10 and the loop goes on.
\<close>

theorem polling_cycle:
  assumes "registered tid (tasks s)"
  shows "(check_webodm_task_status w r = None \<longrightarrow>
            poll_iteration tid w e r s = (Continue, time_sleep 10 s) \<and>
            tasks (time_sleep 10 s) = tasks s \<and> now (time_sleep 10 s) = now s + 10 \<and>
            poll_loop tid w e (r # rs) s = poll_loop tid w e rs (time_sleep 10 s)) \<and>
         (list_all absent_reply qs \<longrightarrow>
            poll_loop tid w e (qs @ rs) s = poll_loop tid w e rs (time_sleep (10 * length qs) s) \<and>
            poll_loop tid w e qs s = (Polling, time_sleep (10 * length qs) s)) \<and>
         (\<forall>p. check_webodm_task_status w r = Some (40, p) \<longrightarrow>
            ''downloading'' \<in> set (map status (new_trace s (snd (poll_iteration tid w e r s)))) \<and>
            (status (task_of (snd (poll_iteration tid w e r s)) tid) = ''completed'' \<or>
             status (task_of (snd (poll_iteration tid w e r s)) tid) = ''failed'' \<and>
             message (task_of (snd (poll_iteration tid w e r s)) tid) = ''Download failed'') \<and>
            poll_loop tid w e (r # rs) s = (Normal, snd (poll_iteration tid w e r s))) \<and>
         (\<forall>p. check_webodm_task_status w r = Some (30, p) \<longrightarrow>
            status (task_of (snd (poll_iteration tid w e r s)) tid) = ''failed'' \<and>
            message (task_of (snd (poll_iteration tid w e r s)) tid) = ''Processing failed'' \<and>
            poll_loop tid w e (r # rs) s = (Normal, snd (poll_iteration tid w e r s))) \<and>
         (\<forall>p. check_webodm_task_status w r = Some (50, p) \<longrightarrow>
            status (task_of (snd (poll_iteration tid w e r s)) tid) = ''failed'' \<and>
            message (task_of (snd (poll_iteration tid w e r s)) tid) = ''Task canceled'' \<and>
            poll_loop tid w e (r # rs) s = (Normal, snd (poll_iteration tid w e r s))) \<and>
         (\<forall>c p. check_webodm_task_status w r = Some (c, p) \<and> c \<noteq> 40 \<and> c \<noteq> 30 \<and> c \<noteq> 50 \<longrightarrow>
            status (task_of (snd (poll_iteration tid w e r s)) tid) = status (task_of s tid) \<and>
            progress (task_of (snd (poll_iteration tid w e r s)) tid) = p \<and>
            now (snd (poll_iteration tid w e r s)) = now s + 10 \<and>
            poll_loop tid w e (r # rs) s = poll_loop tid w e rs (snd (poll_iteration tid w e r s)))"
proof -
  note indep = check_status_indep [of w r]
  have absent: "check_webodm_task_status w r = None \<longrightarrow>
            poll_iteration tid w e r s = (Continue, time_sleep 10 s) \<and>
            tasks (time_sleep 10 s) = tasks s \<and> now (time_sleep 10 s) = now s + 10 \<and>
            poll_loop tid w e (r # rs) s = poll_loop tid w e rs (time_sleep 10 s)"
    by (simp add: poll_iteration_def)
  have nocap: "list_all absent_reply qs \<longrightarrow>
            poll_loop tid w e (qs @ rs) s = poll_loop tid w e rs (time_sleep (10 * length qs) s) \<and>
            poll_loop tid w e qs s = (Polling, time_sleep (10 * length qs) s)"
    using poll_loop_skips_absent [of qs tid w e rs s] poll_loop_skips_absent [of qs tid w e "[]" s]
    by simp
  have completed: "\<forall>p. check_webodm_task_status w r = Some (40, p) \<longrightarrow>
            ''downloading'' \<in> set (map status (new_trace s (snd (poll_iteration tid w e r s)))) \<and>
            (status (task_of (snd (poll_iteration tid w e r s)) tid) = ''completed'' \<or>
             status (task_of (snd (poll_iteration tid w e r s)) tid) = ''failed'' \<and>
             message (task_of (snd (poll_iteration tid w e r s)) tid) = ''Download failed'') \<and>
            poll_loop tid w e (r # rs) s = (Normal, snd (poll_iteration tid w e r s))"
  proof (intro allI impI)
    fix p assume "check_webodm_task_status w r = Some (40, p)"
    with indep have c: "check_webodm_task_status None r = Some (40, p)" by simp
    then have t: "terminal_reply r" by (simp add: terminal_reply_def terminal_code_def)
    show "''downloading'' \<in> set (map status (new_trace s (snd (poll_iteration tid w e r s)))) \<and>
            (status (task_of (snd (poll_iteration tid w e r s)) tid) = ''completed'' \<or>
             status (task_of (snd (poll_iteration tid w e r s)) tid) = ''failed'' \<and>
             message (task_of (snd (poll_iteration tid w e r s)) tid) = ''Download failed'') \<and>
            poll_loop tid w e (r # rs) s = (Normal, snd (poll_iteration tid w e r s))"
      using assms t
      by (simp add: poll_loop_Cons poll_iteration_completed [OF assms c] Let_def new_trace_def
          del: poll_loop.simps)
  qed
  have failed: "\<forall>p. check_webodm_task_status w r = Some (30, p) \<longrightarrow>
            status (task_of (snd (poll_iteration tid w e r s)) tid) = ''failed'' \<and>
            message (task_of (snd (poll_iteration tid w e r s)) tid) = ''Processing failed'' \<and>
            poll_loop tid w e (r # rs) s = (Normal, snd (poll_iteration tid w e r s))"
  proof (intro allI impI)
    fix p assume "check_webodm_task_status w r = Some (30, p)"
    with indep have c: "check_webodm_task_status None r = Some (30, p)" by simp
    then have t: "terminal_reply r" by (simp add: terminal_reply_def terminal_code_def)
    show "status (task_of (snd (poll_iteration tid w e r s)) tid) = ''failed'' \<and>
            message (task_of (snd (poll_iteration tid w e r s)) tid) = ''Processing failed'' \<and>
            poll_loop tid w e (r # rs) s = (Normal, snd (poll_iteration tid w e r s))"
      using assms t
      by (simp add: poll_loop_Cons poll_iteration_failed [OF assms c] del: poll_loop.simps)
  qed
  have canceled: "\<forall>p. check_webodm_task_status w r = Some (50, p) \<longrightarrow>
            status (task_of (snd (poll_iteration tid w e r s)) tid) = ''failed'' \<and>
            message (task_of (snd (poll_iteration tid w e r s)) tid) = ''Task canceled'' \<and>
            poll_loop tid w e (r # rs) s = (Normal, snd (poll_iteration tid w e r s))"
  proof (intro allI impI)
    fix p assume "check_webodm_task_status w r = Some (50, p)"
    with indep have c: "check_webodm_task_status None r = Some (50, p)" by simp
    then have t: "terminal_reply r" by (simp add: terminal_reply_def terminal_code_def)
    show "status (task_of (snd (poll_iteration tid w e r s)) tid) = ''failed'' \<and>
            message (task_of (snd (poll_iteration tid w e r s)) tid) = ''Task canceled'' \<and>
            poll_loop tid w e (r # rs) s = (Normal, snd (poll_iteration tid w e r s))"
      using assms t
      by (simp add: poll_loop_Cons poll_iteration_canceled [OF assms c] del: poll_loop.simps)
  qed
  have running: "\<forall>c p. check_webodm_task_status w r = Some (c, p) \<and> c \<noteq> 40 \<and> c \<noteq> 30 \<and> c \<noteq> 50 \<longrightarrow>
            status (task_of (snd (poll_iteration tid w e r s)) tid) = status (task_of s tid) \<and>
            progress (task_of (snd (poll_iteration tid w e r s)) tid) = p \<and>
            now (snd (poll_iteration tid w e r s)) = now s + 10 \<and>
            poll_loop tid w e (r # rs) s = poll_loop tid w e rs (snd (poll_iteration tid w e r s))"
  proof (intro allI impI)
    fix c p assume h: "check_webodm_task_status w r = Some (c, p) \<and> c \<noteq> 40 \<and> c \<noteq> 30 \<and> c \<noteq> 50"
    with indep have c: "check_webodm_task_status None r = Some (c, p)" by simp
    from h have nt: "\<not> terminal_code c" by (simp add: terminal_code_def)
    with c have t: "\<not> terminal_reply r" by (simp add: terminal_reply_def)
    show "status (task_of (snd (poll_iteration tid w e r s)) tid) = status (task_of s tid) \<and>
            progress (task_of (snd (poll_iteration tid w e r s)) tid) = p \<and>
            now (snd (poll_iteration tid w e r s)) = now s + 10 \<and>
            poll_loop tid w e (r # rs) s = poll_loop tid w e rs (snd (poll_iteration tid w e r s))"
      using assms t
      by (simp add: poll_loop_Cons poll_iteration_running [OF assms c nt] del: poll_loop.simps)
  qed
  from absent nocap completed failed canceled running show ?thesis by blast
qed

section \<open>The search for the image folder\<close>

lemma files_loop_cases: "files_loop d fs f = d \<or> files_loop d fs f = f"
  by (induction fs) auto

lemma os_walk_first: "\<exists>ds fs rest. os_walk d t = (d, ds, fs) # rest"
  by (cases t) simp

lemma find_image_folder_is_root: "find_image_folder s d = d"
proof (cases "map_of (disk_dirs s) d")
  case None
  then show ?thesis by (simp add: find_image_folder_def walk_disk_def)
next
  case (Some t)
  from os_walk_first [of d t] obtain ds fs rest where "os_walk d t = (d, ds, fs) # rest"
    by blast
  with Some files_loop_cases [of d fs d] show ?thesis
    by (auto simp: find_image_folder_def walk_disk_def)
qed


section \<open>Concrete runs\<close>

lemma queued_state_eq:
  "queued_state =
     \<lparr> tasks = [(''t1'', \<lparr> task_id = ''t1'', status = ''queued'', progress = 0,
                    message = ''Task queued'', filename = ''photos.zip'', created_at = 0,
                    webodm_task_id = None, output_file = None \<rparr>)],
       disk_files = {''uploads/t1.zip''}, disk_dirs = [], now = 0, uuid_calls = 1,
       background = [(''t1'', ''uploads/t1.zip'')], trace = [] \<rparr>"
  by (simp add: queued_state_def upload_images_def initial_state_def endswith_any_def
      endswith_def lower_def lower_char_def file_extension_of_def path_join_def UPLOAD_DIR_def
      Let_def)

lemma str_nat_digit: "n < 10 \<Longrightarrow> str_nat n = [digit_char n]"
  by (simp add: str_nat.simps)

lemmas eval_simps =
  process_task_def process_task_body_def extract_stage_def announce_upload_def
  submit_and_poll_def cleanup_def on_exception_def poll_iteration_def
  set_status_def set_message_def set_progress_def set_item_def
  os_makedirs_def extract_archive_def left_behind_def unpack_def find_image_folder_def walk_disk_def
  count_images_def os_listdir_def all_dirs_def is_subdir_def upload_images_to_webodm_def
  check_webodm_task_status_def download_from_webodm_def shutil_rmtree_def os_remove_def
  time_sleep_def truthy_def is_image_def image_extensions_def endswith_any_def endswith_def
  lower_def lower_char_def file_extension_of_def path_join_def TEMP_DIR_def OUTPUT_DIR_def
  Let_def str_nat_digit digit_char_def queued_state_eq good_env_def insert_Diff_if

lemma queued_registered: "registered ''t1'' (tasks queued_state)"
  by (simp add: registered_def queued_state_eq)

lemma ext_zip: "file_extension_of ''uploads/t1.zip'' = ''zip''"
  by (simp add: file_extension_of_def lower_def lower_char_def)

lemma good_run:
  "\<exists>s'. process_task ''t1'' ''uploads/t1.zip'' good_env queued_state = (Normal, s') \<and>
        tasks s' = [(''t1'', \<lparr> task_id = ''t1'', status = ''completed'', progress = 100,
                    message = ''Complete!'', filename = ''photos.zip'', created_at = 0,
                    webodm_task_id = Some (Some ''r1''),
                    output_file = Some ''outputs/t1.zip'' \<rparr>)] \<and>
        disk_files s' = {''outputs/t1.zip''} \<and> disk_dirs s' = [] \<and>
        map status (trace s') =
          [''extracting'', ''extracting'', ''uploading'', ''uploading'', ''uploading'',
           ''processing'', ''processing'', ''processing'', ''processing'', ''processing'',
           ''downloading'', ''downloading'', ''completed'', ''completed'', ''completed'',
           ''completed'']"
  by (simp add: eval_simps) 

lemma subdir_run:
  "\<exists>s'. process_task ''t1'' ''uploads/t1.zip'' subdir_env queued_state = (Normal, s') \<and>
        tasks s' = [(''t1'', \<lparr> task_id = ''t1'', status = ''failed'', progress = 0,
                    message = ''No images found'', filename = ''photos.zip'', created_at = 0,
                    webodm_task_id = None, output_file = None \<rparr>)] \<and>
        disk_files s' = {''uploads/t1.zip''} \<and>
        disk_dirs s' = [(''temp/t1'', Dir [] [(''photos'', Dir [''a.jpg'', ''b.jpg''] [])])] \<and>
        map message (trace s') =
          [''Task queued'', ''Extracting images...'', ''Extracting images...'',
           ''Uploading 0 images...'', ''Uploading 0 images...'', ''No images found'']"
  by (simp add: eval_simps subdir_env_def)

lemma decreasing_run:
  "\<exists>s'. process_task ''t1'' ''uploads/t1.zip'' decreasing_env queued_state = (Polling, s') \<and>
        map (\<lambda>t. (status t, progress t)) (trace s') =
          [(''extracting'', 0), (''extracting'', 0), (''uploading'', 0), (''uploading'', 0),
           (''uploading'', 0), (''processing'', 0), (''processing'', 0), (''processing'', 50),
           (''processing'', 30)]"
  by (simp add: eval_simps decreasing_env_def)

lemma remove_fails_run:
  "\<exists>s'. process_task ''t1'' ''uploads/t1.zip'' remove_fails_env queued_state = (Normal, s') \<and>
        tasks s' = [(''t1'', \<lparr> task_id = ''t1'', status = ''failed'', progress = 100,
                    message = ''[Errno 13] Permission denied'', filename = ''photos.zip'',
                    created_at = 0, webodm_task_id = Some (Some ''r1''),
                    output_file = Some ''outputs/t1.zip'' \<rparr>)] \<and>
        disk_files s' = {''outputs/t1.zip'', ''uploads/t1.zip''} \<and> disk_dirs s' = []"
  by (simp add: eval_simps remove_fails_env_def)


lemma makedirs_fails_body:
  "fst (process_task_body ''t1'' ''uploads/t1.zip'' makedirs_fails_env queued_state) =
     Raise (Exception ''[Errno 28] No space left on device'')"
  by (simp add: eval_simps makedirs_fails_env_def)


lemma corrupt_unpack:
  "unpack corrupt_env (file_extension_of ''uploads/t1.zip'') =
     Inl (Exception ''File is not a zip file'')"
  by (simp add: unpack_def ext_zip corrupt_env_def good_env_def)

lemma good_final:
  "fst (process_task ''t1'' ''uploads/t1.zip'' good_env queued_state) = Normal \<and>
   tasks (snd (process_task ''t1'' ''uploads/t1.zip'' good_env queued_state)) =
     [(''t1'', \<lparr> task_id = ''t1'', status = ''completed'', progress = 100,
                    message = ''Complete!'', filename = ''photos.zip'', created_at = 0,
                    webodm_task_id = Some (Some ''r1''),
                    output_file = Some ''outputs/t1.zip'' \<rparr>)] \<and>
   disk_files (snd (process_task ''t1'' ''uploads/t1.zip'' good_env queued_state)) =
     {''outputs/t1.zip''} \<and>
   disk_dirs (snd (process_task ''t1'' ''uploads/t1.zip'' good_env queued_state)) = [] \<and>
   map status (trace (snd (process_task ''t1'' ''uploads/t1.zip'' good_env queued_state))) =
          [''extracting'', ''extracting'', ''uploading'', ''uploading'', ''uploading'',
           ''processing'', ''processing'', ''processing'', ''processing'', ''processing'',
           ''downloading'', ''downloading'', ''completed'', ''completed'', ''completed'',
           ''completed'']"
  using good_run by (elim exE conjE) simp

lemma good_task:
  "task_of (snd (process_task ''t1'' ''uploads/t1.zip'' good_env queued_state)) ''t1'' =
     \<lparr> task_id = ''t1'', status = ''completed'', progress = 100,
                    message = ''Complete!'', filename = ''photos.zip'', created_at = 0,
                    webodm_task_id = Some (Some ''r1''),
                    output_file = Some ''outputs/t1.zip'' \<rparr>"
  by (simp add: task_of_def good_final)

lemma queued_task:
  "task_of queued_state ''t1'' =
     \<lparr> task_id = ''t1'', status = ''queued'', progress = 0,
                    message = ''Task queued'', filename = ''photos.zip'', created_at = 0,
                    webodm_task_id = None, output_file = None \<rparr>"
  by (simp add: task_of_def queued_state_eq)

lemma new_trace_queued: "new_trace queued_state s' = trace s'"
  by (simp add: new_trace_def queued_state_eq)




section \<open>An archive whose images are in a folder\<close>

text \<open>
  Claim C1. The search for the image folder never leaves the extraction root:
  \<open>find_image_folder\<close> returns the extraction directory for every state of the
  disk. For an archive whose two images lie in the folder \<open>photos\<close>, that folder is
  on disk after the extraction and holds the images, yet the manager announces 0
  images, the submission finds no images and the task ends \<open>failed\<close>: the
  subdirectory is not discovered.
\<close>

theorem image_search_stops_at_extraction_root:
  "(\<forall>s d. find_image_folder s d = d) \<and>
   walk_disk (snd (process_task ''t1'' ''uploads/t1.zip'' subdir_env queued_state)) ''temp/t1'' =
     [(''temp/t1'', [''photos''], []), (''temp/t1/photos'', [], [''a.jpg'', ''b.jpg''])] \<and>
   fst (process_task ''t1'' ''uploads/t1.zip'' subdir_env queued_state) = Normal \<and>
   map message (trace (snd (process_task ''t1'' ''uploads/t1.zip'' subdir_env queued_state))) =
     [''Task queued'', ''Extracting images...'', ''Extracting images...'',
      ''Uploading 0 images...'', ''Uploading 0 images...'', ''No images found''] \<and>
   status (task_of (snd (process_task ''t1'' ''uploads/t1.zip'' subdir_env queued_state)) ''t1'') =
     ''failed'' \<and>
   message (task_of (snd (process_task ''t1'' ''uploads/t1.zip'' subdir_env queued_state)) ''t1'') =
     ''No images found''"
proof -
  have "walk_disk s' ''temp/t1'' =
     [(''temp/t1'', [''photos''], []), (''temp/t1/photos'', [], [''a.jpg'', ''b.jpg''])]"
    if "disk_dirs s' = [(''temp/t1'', Dir [] [(''photos'', Dir [''a.jpg'', ''b.jpg''] [])])]"
    for s'
    by (simp add: walk_disk_def that path_join_def)
  with subdir_run find_image_folder_is_root show ?thesis
    by (elim exE conjE) (simp add: task_of_def)
qed


section \<open>Runs that contradict the specification\<close>

lemma processing_progress_pairs:
  "processing_progress tr =
     map snd (filter (\<lambda>p. fst p = ''processing'') (map (\<lambda>t. (status t, progress t)) tr))"
  by (induction tr) (simp_all add: processing_progress_def)

text \<open>
  The remote service reports 50 and then 30: the progress of the task goes down
  while its status is \<open>processing\<close>.
\<close>

theorem progress_can_decrease_counterexample:
  "processing_progress
     (new_trace queued_state (snd (process_task ''t1'' ''uploads/t1.zip'' decreasing_env queued_state)))
     = [0, 0, 50, 30] \<and>
   \<not> sorted (processing_progress
     (new_trace queued_state (snd (process_task ''t1'' ''uploads/t1.zip'' decreasing_env queued_state))))"
  using decreasing_run
  by (elim exE conjE) (simp add: new_trace_queued processing_progress_pairs)

text \<open>
  The download succeeds and \<open>os.remove\<close> raises afterwards: the handler marks the
  task \<open>failed\<close>, and \<open>output_file\<close> stays in the record.
\<close>

theorem output_file_on_failed_task_counterexample:
  "status (task_of (snd (process_task ''t1'' ''uploads/t1.zip'' remove_fails_env queued_state)) ''t1'')
     = ''failed'' \<and>
   output_file (task_of (snd (process_task ''t1'' ''uploads/t1.zip'' remove_fails_env queued_state)) ''t1'')
     = Some ''outputs/t1.zip''"
  using remove_fails_run by (elim exE conjE) (simp add: task_of_def)



section \<open>Download\<close>

text \<open>
  Claim C9. A download request for an unknown id is answered with 404 \<open>Task not
  found\<close>; for a task that is not \<open>completed\<close>, with 400 and its status; for a
  \<open>completed\<close> task whose output file is not on disk, or is not recorded, with 404
  \<open>File not found\<close>; and otherwise with the file, named \<open>orthomosaic_\<close>, the task
  id, \<open>.zip\<close>.
\<close>

theorem download_result_cases:
  "(\<not> registered tid (tasks s) \<longrightarrow>
      download_result tid s = Inl (HTTPException 404 ''Task not found'')) \<and>
   (registered tid (tasks s) \<and> status (task_of s tid) \<noteq> ''completed'' \<longrightarrow>
      download_result tid s = Inl (HTTPException 400 (''Status: '' @ status (task_of s tid)))) \<and>
   (\<forall>p. registered tid (tasks s) \<and> status (task_of s tid) = ''completed'' \<and>
        output_file (task_of s tid) = Some p \<and> p \<notin> disk_files s \<longrightarrow>
      download_result tid s = Inl (HTTPException 404 ''File not found'')) \<and>
   (registered tid (tasks s) \<and> status (task_of s tid) = ''completed'' \<and>
        (output_file (task_of s tid) = None \<or> output_file (task_of s tid) = Some []) \<longrightarrow>
      download_result tid s = Inl (HTTPException 404 ''File not found'')) \<and>
   (\<forall>p. registered tid (tasks s) \<and> status (task_of s tid) = ''completed'' \<and>
        output_file (task_of s tid) = Some p \<and> p \<noteq> [] \<and> p \<in> disk_files s \<longrightarrow>
      download_result tid s =
        Inr (FileResponse p ''application/zip'' (''orthomosaic_'' @ tid @ ''.zip'')))"
  by (auto simp: download_result_def registered_def task_of_def)

lemma good_registered:
  "registered ''t1'' (tasks (snd (process_task ''t1'' ''uploads/t1.zip'' good_env queued_state)))"
  by (rule process_task_registered [OF queued_registered])

text \<open>
  One request of each kind: an unknown id, the queued task, the task of the run that
  succeeds, the same with the output file deleted, and a record marked
  \<open>completed\<close> by hand.
\<close>

theorem download_result_cases_witness:
  "\<not> registered ''zz'' (tasks queued_state) \<and>
   download_result ''zz'' queued_state = Inl (HTTPException 404 ''Task not found'') \<and>
   registered ''t1'' (tasks queued_state) \<and>
   status (task_of queued_state ''t1'') \<noteq> ''completed'' \<and>
   download_result ''t1'' queued_state = Inl (HTTPException 400 ''Status: queued'') \<and>
   status (task_of (snd (process_task ''t1'' ''uploads/t1.zip'' good_env queued_state)) ''t1'')
     = ''completed'' \<and>
   output_file (task_of (snd (process_task ''t1'' ''uploads/t1.zip'' good_env queued_state)) ''t1'')
     = Some ''outputs/t1.zip'' \<and>
   ''outputs/t1.zip'' \<in> disk_files (snd (process_task ''t1'' ''uploads/t1.zip'' good_env queued_state)) \<and>
   download_result ''t1'' (snd (process_task ''t1'' ''uploads/t1.zip'' good_env queued_state)) =
     Inr (FileResponse ''outputs/t1.zip'' ''application/zip'' ''orthomosaic_t1.zip'') \<and>
   ''outputs/t1.zip'' \<notin> disk_files
      ((snd (process_task ''t1'' ''uploads/t1.zip'' good_env queued_state))\<lparr>disk_files := {}\<rparr>) \<and>
   download_result ''t1''
      ((snd (process_task ''t1'' ''uploads/t1.zip'' good_env queued_state))\<lparr>disk_files := {}\<rparr>) =
     Inl (HTTPException 404 ''File not found'') \<and>
   output_file (task_of (assign ''t1'' (\<lambda>t. t\<lparr>status := ''completed''\<rparr>) queued_state) ''t1'') = None \<and>
   download_result ''t1'' (assign ''t1'' (\<lambda>t. t\<lparr>status := ''completed''\<rparr>) queued_state) =
     Inl (HTTPException 404 ''File not found'')"
proof -
  let ?g = "snd (process_task ''t1'' ''uploads/t1.zip'' good_env queued_state)"
  let ?n = "assign ''t1'' (\<lambda>t. t\<lparr>status := ''completed''\<rparr>) queued_state"
  have a1: "\<not> registered ''zz'' (tasks queued_state)"
    by (simp add: registered_def queued_state_eq)
  from a1 download_result_cases [of "''zz''" queued_state]
  have a2: "download_result ''zz'' queued_state = Inl (HTTPException 404 ''Task not found'')"
    by simp
  have b1: "status (task_of queued_state ''t1'') \<noteq> ''completed''"
    and b1': "status (task_of queued_state ''t1'') = ''queued''"
    by (simp_all add: queued_task)
  from queued_registered b1 download_result_cases [of "''t1''" queued_state]
  have "download_result ''t1'' queued_state =
      Inl (HTTPException 400 (''Status: '' @ status (task_of queued_state ''t1'')))"
    by simp
  then have b2: "download_result ''t1'' queued_state = Inl (HTTPException 400 ''Status: queued'')"
    by (simp add: b1')
  have c1: "status (task_of ?g ''t1'') = ''completed''"
    and c2: "output_file (task_of ?g ''t1'') = Some ''outputs/t1.zip''"
    by (simp_all add: good_task)
  have c3: "''outputs/t1.zip'' \<in> disk_files ?g" by (simp add: good_final)
  from good_registered c1 c2 c3 download_result_cases [of "''t1''" ?g]
  have c4: "download_result ''t1'' ?g =
      Inr (FileResponse ''outputs/t1.zip'' ''application/zip'' ''orthomosaic_t1.zip'')"
    by simp
  have d0: "registered ''t1'' (tasks (?g\<lparr>disk_files := {}\<rparr>))" using good_registered by simp
  have d1: "status (task_of (?g\<lparr>disk_files := {}\<rparr>) ''t1'') = ''completed''"
    and d2: "output_file (task_of (?g\<lparr>disk_files := {}\<rparr>) ''t1'') = Some ''outputs/t1.zip''"
    by (simp_all add: good_task)
  have d3: "''outputs/t1.zip'' \<notin> disk_files (?g\<lparr>disk_files := {}\<rparr>)" by simp
  from d0 d1 d2 d3 download_result_cases [of "''t1''" "?g\<lparr>disk_files := {}\<rparr>"]
  have d4: "download_result ''t1'' (?g\<lparr>disk_files := {}\<rparr>) =
      Inl (HTTPException 404 ''File not found'')"
    by simp
  have e0: "registered ''t1'' (tasks ?n)" using queued_registered by simp
  have e1: "status (task_of ?n ''t1'') = ''completed''"
    and e2: "output_file (task_of ?n ''t1'') = None"
    using queued_registered by (simp_all add: queued_task)
  from e0 e1 e2 download_result_cases [of "''t1''" ?n]
  have e3: "download_result ''t1'' ?n = Inl (HTTPException 404 ''File not found'')"
    by simp
  from a1 a2 queued_registered b1 b2 c1 c2 c3 c4 d3 d4 e2 e3 show ?thesis
    by (intro conjI)
qed


section \<open>Runs that satisfy the hypotheses\<close>




lemma good_reported: "reported (info_replies good_env) = [50, 70, 99]"
  by (simp add: good_env_def reported_by_def terminal_reply_def terminal_code_def
      check_webodm_task_status_def)

text \<open>The run in which everything succeeds: the reports are 50, 70 and 99.\<close>

theorem progress_follows_remote_reports_witness:
  "registered ''t1'' (tasks queued_state) \<and>
   endswith_any (lower ''photos.zip'') [''.zip'', ''.rar''] \<and>
   progress (task_of (snd (upload_images (\<lambda>n. ''t1'') ''photos.zip'' initial_state))
     ((\<lambda>n. ''t1'') (uuid_calls initial_state))) = 0 \<and>
   sorted (progress (task_of queued_state ''t1'') # reported (info_replies good_env)) \<and>
   sorted (processing_progress (new_trace queued_state
      (snd (process_task ''t1'' ''uploads/t1.zip'' good_env queued_state)))) \<and>
   status (task_of (snd (process_task ''t1'' ''uploads/t1.zip'' good_env queued_state)) ''t1'')
     = ''completed'' \<and>
   progress (task_of (snd (process_task ''t1'' ''uploads/t1.zip'' good_env queued_state)) ''t1'')
     = 100"
proof -
  let ?g = "snd (process_task ''t1'' ''uploads/t1.zip'' good_env queued_state)"
  note T = progress_follows_remote_reports [OF queued_registered,
      of "''photos.zip''" "\<lambda>n. ''t1''" initial_state "''uploads/t1.zip''" good_env]
  have h1: "endswith_any (lower ''photos.zip'') [''.zip'', ''.rar'']"
    by (simp add: endswith_any_def endswith_def lower_def lower_char_def)
  have h2: "sorted (progress (task_of queued_state ''t1'') # reported (info_replies good_env))"
    by (simp add: queued_task good_reported)
  have h3: "status (task_of ?g ''t1'') = ''completed''" by (simp add: good_task)
  from T [THEN conjunct1] h1
  have c1: "progress (task_of (snd (upload_images (\<lambda>n. ''t1'') ''photos.zip'' initial_state))
     ((\<lambda>n. ''t1'') (uuid_calls initial_state))) = 0" by blast
  from T [THEN conjunct2, THEN conjunct2, THEN conjunct1] h2
  have c2: "sorted (processing_progress (new_trace queued_state ?g))" by blast
  from T [THEN conjunct2, THEN conjunct2, THEN conjunct2] h3
  have c3: "progress (task_of ?g ''t1'') = 100" by blast
  from queued_registered h1 c1 h2 c2 h3 c3 show ?thesis by (intro conjI)
qed

text \<open>The run in which everything succeeds satisfies every hypothesis.\<close>

theorem output_file_after_download_only_witness:
  "registered ''t1'' (tasks queued_state) \<and>
   output_file (task_of queued_state ''t1'') = None \<and>
   status (task_of (snd (process_task ''t1'' ''uploads/t1.zip'' good_env queued_state)) ''t1'')
     = ''completed'' \<and>
   output_file (task_of (snd (process_task ''t1'' ''uploads/t1.zip'' good_env queued_state)) ''t1'')
     = Some (output_path_of ''t1'') \<and>
   output_file (task_of (snd (process_task ''t1'' ''uploads/t1.zip'' good_env queued_state)) ''t1'')
     \<noteq> None \<and>
   download_reply good_env = DownloadReply 200 True \<and>
   remove_error good_env = None \<and> ''uploads/t1.zip'' \<in> disk_files queued_state"
proof -
  let ?g = "snd (process_task ''t1'' ''uploads/t1.zip'' good_env queued_state)"
  have h0: "output_file (task_of queued_state ''t1'') = None" by (simp add: queued_task)
  note T = output_file_after_download_only [OF queued_registered h0, of "''uploads/t1.zip''" good_env]
  have h1: "status (task_of ?g ''t1'') = ''completed''" by (simp add: good_task)
  from T [THEN conjunct1] h1
  have c1: "output_file (task_of ?g ''t1'') = Some (output_path_of ''t1'')" by blast
  then have h2: "output_file (task_of ?g ''t1'') \<noteq> None" by simp
  from T [THEN conjunct2, THEN conjunct1] h2
  have c2: "download_reply good_env = DownloadReply 200 True" by blast
  have h3: "remove_error good_env = None" by (simp add: good_env_def)
  have h4: "''uploads/t1.zip'' \<in> disk_files queued_state" by (simp add: queued_state_eq)
  from queued_registered h0 h1 c1 h2 c2 h3 h4 show ?thesis by (intro conjI)
qed

text \<open>A run in which \<open>os.makedirs\<close> raises: the disk is full.\<close>

theorem exceptions_end_in_failed_witness:
  "registered ''t1'' (tasks queued_state) \<and>
   fst (process_task_body ''t1'' ''uploads/t1.zip'' makedirs_fails_env queued_state) =
     Raise (Exception ''[Errno 28] No space left on device'') \<and>
   fst (process_task ''t1'' ''uploads/t1.zip'' makedirs_fails_env queued_state) = Normal \<and>
   status (task_of (snd (process_task ''t1'' ''uploads/t1.zip'' makedirs_fails_env queued_state)) ''t1'')
     = ''failed'' \<and>
   message (task_of (snd (process_task ''t1'' ''uploads/t1.zip'' makedirs_fails_env queued_state)) ''t1'')
     = ''[Errno 28] No space left on device''"
proof -
  let ?b = "process_task_body ''t1'' ''uploads/t1.zip'' makedirs_fails_env queued_state"
  let ?r = "process_task ''t1'' ''uploads/t1.zip'' makedirs_fails_env queued_state"
  have "?b = (fst ?b, snd ?b)" by simp
  then have b: "?b = (Raise (Exception ''[Errno 28] No space left on device''), snd ?b)"
    by (simp only: makedirs_fails_body)
  note T = exceptions_end_in_failed [OF queued_registered, of "''uploads/t1.zip''" makedirs_fails_env,
      THEN conjunct1, rule_format, OF b]
  from T have c1: "fst ?r = Normal" and c2: "status (task_of (snd ?r) ''t1'') = ''failed''"
    and c3: "message (task_of (snd ?r) ''t1'') = ''[Errno 28] No space left on device''"
    by simp_all
  from queued_registered makedirs_fails_body c1 c2 c3 show ?thesis by (intro conjI)
qed

text \<open>A corrupt archive: \<open>zipfile\<close> raises.\<close>

theorem extraction_failure_never_uploads_witness:
  "registered ''t1'' (tasks queued_state) \<and> makedirs_error corrupt_env = None \<and>
   unpack corrupt_env (file_extension_of ''uploads/t1.zip'') =
     Inl (Exception ''File is not a zip file'') \<and>
   fst (process_task ''t1'' ''uploads/t1.zip'' corrupt_env queued_state) = Normal \<and>
   map status (new_trace queued_state
       (snd (process_task ''t1'' ''uploads/t1.zip'' corrupt_env queued_state))) =
     [''extracting'', ''extracting'', ''failed'', ''failed''] \<and>
   ''uploading'' \<notin> set (map status (new_trace queued_state
       (snd (process_task ''t1'' ''uploads/t1.zip'' corrupt_env queued_state)))) \<and>
   status (task_of (snd (process_task ''t1'' ''uploads/t1.zip'' corrupt_env queued_state)) ''t1'')
     = ''failed'' \<and>
   message (task_of (snd (process_task ''t1'' ''uploads/t1.zip'' corrupt_env queued_state)) ''t1'')
     = ''Extraction failed: File is not a zip file''"
proof -
  let ?c = "snd (process_task ''t1'' ''uploads/t1.zip'' corrupt_env queued_state)"
  have k1: "makedirs_error corrupt_env = None" by (simp add: corrupt_env_def good_env_def)
  note T = extraction_failure_never_uploads [OF queued_registered k1 corrupt_unpack]
  from T have c1: "fst (process_task ''t1'' ''uploads/t1.zip'' corrupt_env queued_state) = Normal"
    and c2: "map status (new_trace queued_state ?c) =
       [''extracting'', ''extracting'', ''failed'', ''failed'']"
    and c3: "''uploading'' \<notin> set (map status (new_trace queued_state ?c))"
    and c4: "status (task_of ?c ''t1'') = ''failed''"
    and c5: "message (task_of ?c ''t1'') = ''Extraction failed: File is not a zip file''"
    by simp_all
  from queued_registered k1 corrupt_unpack c1 c2 c3 c4 c5 show ?thesis by (intro conjI)
qed

text \<open>The listing after the first submission and after the run that succeeds.\<close>

theorem list_tasks_exposes_internal_fields_witness:
  "distinct (map fst (tasks queued_state)) \<and> registered ''t1'' (tasks queued_state) \<and>
   total (list_tasks queued_state) = card (dom (map_of (tasks queued_state))) \<and>
   task_of queued_state ''t1'' \<in> set (listed (list_tasks queued_state)) \<and>
   status (task_of (snd (process_task ''t1'' ''uploads/t1.zip'' good_env queued_state)) ''t1'')
     = ''completed'' \<and>
   task_of (snd (process_task ''t1'' ''uploads/t1.zip'' good_env queued_state)) ''t1''
     \<in> set (listed (list_tasks (snd (process_task ''t1'' ''uploads/t1.zip'' good_env queued_state)))) \<and>
   webodm_task_id (task_of (snd (process_task ''t1'' ''uploads/t1.zip'' good_env queued_state)) ''t1'')
     \<noteq> None \<and>
   output_file (task_of (snd (process_task ''t1'' ''uploads/t1.zip'' good_env queued_state)) ''t1'')
     = Some (output_path_of ''t1'')"
proof -
  let ?g = "snd (process_task ''t1'' ''uploads/t1.zip'' good_env queued_state)"
  have d: "distinct (map fst (tasks queued_state))" by (simp add: queued_state_eq)
  note T = list_tasks_exposes_internal_fields [OF d, of "''t1''" "''uploads/t1.zip''" good_env]
  from T have c1: "total (list_tasks queued_state) = card (dom (map_of (tasks queued_state)))"
    by simp
  note R = T [THEN conjunct2, THEN conjunct2, rule_format, OF queued_registered]
  from R have c2: "task_of queued_state ''t1'' \<in> set (listed (list_tasks queued_state))"
    and c3: "task_of ?g ''t1'' \<in> set (listed (list_tasks ?g))" by simp_all
  have h: "status (task_of ?g ''t1'') = ''completed''" by (simp add: good_task)
  from R h have c4: "webodm_task_id (task_of ?g ''t1'') \<noteq> None"
    and c5: "output_file (task_of ?g ''t1'') = Some (output_path_of ''t1'')" by simp_all
  from d queued_registered c1 c2 h c3 c4 c5 show ?thesis by (intro conjI)
qed


text \<open>One reply of each kind, on the task of the first submission.\<close>

theorem polling_cycle_witness:
  "registered ''t1'' (tasks queued_state) \<and>
   check_webodm_task_status (Some ''r1'') GetRaises = None \<and>
   poll_iteration ''t1'' (Some ''r1'') good_env GetRaises queued_state =
     (Continue, time_sleep 10 queued_state) \<and>
   tasks (time_sleep 10 queued_state) = tasks queued_state \<and>
   list_all absent_reply [GetRaises, GetReply 503 Malformed, GetReply 200 Malformed] \<and>
   poll_loop ''t1'' (Some ''r1'') good_env
       [GetRaises, GetReply 503 Malformed, GetReply 200 Malformed] queued_state =
     (Polling, time_sleep (10 * length [GetRaises, GetReply 503 Malformed, GetReply 200 Malformed])
        queued_state) \<and>
   check_webodm_task_status (Some ''r1'') (GetReply 200 (Info 40 (Some 99))) = Some (40, 99) \<and>
   ''downloading'' \<in> set (map status (new_trace queued_state
      (snd (poll_iteration ''t1'' (Some ''r1'') good_env (GetReply 200 (Info 40 (Some 99)))
         queued_state)))) \<and>
   poll_loop ''t1'' (Some ''r1'') good_env [GetReply 200 (Info 40 (Some 99))] queued_state =
     (Normal, snd (poll_iteration ''t1'' (Some ''r1'') good_env (GetReply 200 (Info 40 (Some 99)))
         queued_state)) \<and>
   check_webodm_task_status (Some ''r1'') (GetReply 200 (Info 30 None)) = Some (30, 0) \<and>
   status (task_of (snd (poll_iteration ''t1'' (Some ''r1'') good_env (GetReply 200 (Info 30 None))
      queued_state)) ''t1'') = ''failed'' \<and>
   message (task_of (snd (poll_iteration ''t1'' (Some ''r1'') good_env (GetReply 200 (Info 30 None))
      queued_state)) ''t1'') = ''Processing failed'' \<and>
   check_webodm_task_status (Some ''r1'') (GetReply 200 (Info 50 None)) = Some (50, 0) \<and>
   status (task_of (snd (poll_iteration ''t1'' (Some ''r1'') good_env (GetReply 200 (Info 50 None))
      queued_state)) ''t1'') = ''failed'' \<and>
   message (task_of (snd (poll_iteration ''t1'' (Some ''r1'') good_env (GetReply 200 (Info 50 None))
      queued_state)) ''t1'') = ''Task canceled'' \<and>
   check_webodm_task_status (Some ''r1'') (GetReply 200 (Info 20 (Some 50))) = Some (20, 50) \<and>
   status (task_of (snd (poll_iteration ''t1'' (Some ''r1'') good_env (GetReply 200 (Info 20 (Some 50)))
      queued_state)) ''t1'') = status (task_of queued_state ''t1'') \<and>
   progress (task_of (snd (poll_iteration ''t1'' (Some ''r1'') good_env (GetReply 200 (Info 20 (Some 50)))
      queued_state)) ''t1'') = 50 \<and>
   now (snd (poll_iteration ''t1'' (Some ''r1'') good_env (GetReply 200 (Info 20 (Some 50)))
      queued_state)) = now queued_state + 10"
proof -
  let ?w = "Some ''r1''"
  let ?qs = "[GetRaises, GetReply 503 Malformed, GetReply 200 Malformed]"
  let ?r40 = "GetReply 200 (Info 40 (Some 99))"
  let ?r30 = "GetReply 200 (Info 30 None)"
  let ?r50 = "GetReply 200 (Info 50 None)"
  let ?r20 = "GetReply 200 (Info 20 (Some 50))"
  note T = polling_cycle [OF queued_registered]
  have a0: "check_webodm_task_status ?w GetRaises = None"
    by (simp add: check_webodm_task_status_def)
  note A = T [of ?w GetRaises good_env "[]" "[]", THEN conjunct1, rule_format, OF a0]
  from A have a1: "poll_iteration ''t1'' ?w good_env GetRaises queued_state =
     (Continue, time_sleep 10 queued_state)"
    and a2: "tasks (time_sleep 10 queued_state) = tasks queued_state" by simp_all
  have b0: "list_all absent_reply ?qs"
    by (simp add: absent_reply_def check_webodm_task_status_def)
  note B = T [of ?w GetRaises good_env "[]" ?qs, THEN conjunct2, THEN conjunct1, rule_format, OF b0]
  from B have b1: "poll_loop ''t1'' ?w good_env ?qs queued_state =
     (Polling, time_sleep (10 * length ?qs) queued_state)" by (rule conjunct2)
  have c0: "check_webodm_task_status ?w ?r40 = Some (40, 99)"
    by (simp add: check_webodm_task_status_def)
  note C = T [of ?w ?r40 good_env "[]" "[]", THEN conjunct2, THEN conjunct2, THEN conjunct1,
      rule_format, OF c0]
  from C have c1: "''downloading'' \<in> set (map status (new_trace queued_state
      (snd (poll_iteration ''t1'' ?w good_env ?r40 queued_state))))"
    and c2: "poll_loop ''t1'' ?w good_env [?r40] queued_state =
     (Normal, snd (poll_iteration ''t1'' ?w good_env ?r40 queued_state))" by blast+
  have d0: "check_webodm_task_status ?w ?r30 = Some (30, 0)"
    by (simp add: check_webodm_task_status_def)
  note D = T [of ?w ?r30 good_env "[]" "[]", THEN conjunct2, THEN conjunct2, THEN conjunct2,
      THEN conjunct1, rule_format, OF d0]
  from D have d1: "status (task_of (snd (poll_iteration ''t1'' ?w good_env ?r30 queued_state)) ''t1'')
      = ''failed''"
    and d2: "message (task_of (snd (poll_iteration ''t1'' ?w good_env ?r30 queued_state)) ''t1'')
      = ''Processing failed''" by blast+
  have e0: "check_webodm_task_status ?w ?r50 = Some (50, 0)"
    by (simp add: check_webodm_task_status_def)
  note E = T [of ?w ?r50 good_env "[]" "[]", THEN conjunct2, THEN conjunct2, THEN conjunct2,
      THEN conjunct2, THEN conjunct1, rule_format, OF e0]
  from E have e1: "status (task_of (snd (poll_iteration ''t1'' ?w good_env ?r50 queued_state)) ''t1'')
      = ''failed''"
    and e2: "message (task_of (snd (poll_iteration ''t1'' ?w good_env ?r50 queued_state)) ''t1'')
      = ''Task canceled''" by blast+
  have f0: "check_webodm_task_status ?w ?r20 = Some (20, 50)"
    by (simp add: check_webodm_task_status_def)
  have f0': "check_webodm_task_status ?w ?r20 = Some (20, 50) \<and> (20::int) \<noteq> 40 \<and>
      (20::int) \<noteq> 30 \<and> (20::int) \<noteq> 50"
    using f0 by simp
  note F = T [of ?w ?r20 good_env "[]" "[]", THEN conjunct2, THEN conjunct2, THEN conjunct2,
      THEN conjunct2, THEN conjunct2, rule_format, OF f0']
  from F have f1: "status (task_of (snd (poll_iteration ''t1'' ?w good_env ?r20 queued_state)) ''t1'')
      = status (task_of queued_state ''t1'')"
    and f2: "progress (task_of (snd (poll_iteration ''t1'' ?w good_env ?r20 queued_state)) ''t1'') = 50"
    and f3: "now (snd (poll_iteration ''t1'' ?w good_env ?r20 queued_state)) = now queued_state + 10"
    by blast+
  from queued_registered a0 a1 a2 b0 b1 c0 c1 c2 d0 d1 d2 e0 e1 e2 f0 f1 f2 f3
  show ?thesis by (intro conjI)
qed

end
